theory Spec2Isabelle
  imports Main "HOL-Library.Char_ord" "HOL-Library.List_Lexorder" "HOL-Library.Product_Lexorder"
begin

section \<open>The state store (class StateTracker)\<close>

text \<open>
  The SQLite database of \<^verbatim>\<open>reupload_failed_workitems.py\<close> holds two tables. A table is
  modelled as the list of its rows in insertion order, a row as a record with one field per
  column. TEXT columns are strings, the two INTEGER counters are (unbounded) integers, and
  the columns that an INSERT leaves NULL are options. Statuses stay strings, as in the
  source: the tracker accepts any status text.

  Every tracker method runs under the tracker's lock and commits before it returns, so a
  method is one atomic step from database to database. The value that
  \<^verbatim>\<open>datetime.now(...).isoformat()\<close> has inside a method is the parameter \<open>ts\<close>.
\<close>

record workitem_row =
  wi_workitem_id :: string
  wi_workitem_name :: string
  wi_job_id :: string
  wi_status :: string
  wi_files_total :: int
  wi_files_processed :: int
  wi_error_message :: "string option"
  wi_started_at :: "string option"
  wi_completed_at :: "string option"

record file_row =
  f_workitem_id :: string
  f_job_id :: string
  f_filename :: string
  f_source_uri :: string
  f_status :: string
  f_error_message :: "string option"
  f_uploaded_at :: "string option"

record db =
  workitems :: "workitem_row list"
  files :: "file_row list"

text \<open>The WHERE clauses on the primary keys of the two tables.\<close>

definition wi_match :: "string \<Rightarrow> string \<Rightarrow> workitem_row \<Rightarrow> bool" where
  "wi_match workitem_id job_id r \<longleftrightarrow> wi_workitem_id r = workitem_id \<and> wi_job_id r = job_id"

definition f_match :: "string \<Rightarrow> string \<Rightarrow> string \<Rightarrow> file_row \<Rightarrow> bool" where
  "f_match workitem_id job_id filename r \<longleftrightarrow>
     f_workitem_id r = workitem_id \<and> f_job_id r = job_id \<and> f_filename r = filename"

text \<open>
  The PRIMARY KEY constraints: no two rows of a table agree on the key columns. The
  database engine enforces them; in the model they are a predicate that the empty
  database satisfies and every tracker method preserves.
\<close>

definition wi_key :: "workitem_row \<Rightarrow> string \<times> string" where
  "wi_key r = (wi_workitem_id r, wi_job_id r)"

definition f_key :: "file_row \<Rightarrow> string \<times> string \<times> string" where
  "f_key r = (f_workitem_id r, f_job_id r, f_filename r)"

definition primary_keys :: "db \<Rightarrow> bool" where
  "primary_keys d \<longleftrightarrow> distinct (map wi_key (workitems d)) \<and> distinct (map f_key (files d))"

definition init_db :: db where
  "init_db = \<lparr>workitems = [], files = []\<rparr>"

text \<open>\<^verbatim>\<open>INSERT OR IGNORE\<close>: the row is appended unless its key is already present.\<close>

definition add_workitem :: "db \<Rightarrow> string \<Rightarrow> string \<Rightarrow> string \<Rightarrow> db" where
  "add_workitem d workitem_id workitem_name job_id =
     (if list_ex (wi_match workitem_id job_id) (workitems d) then d
      else d\<lparr>workitems := workitems d @
        [\<lparr>wi_workitem_id = workitem_id, wi_workitem_name = workitem_name, wi_job_id = job_id,
          wi_status = ''pending'', wi_files_total = 0, wi_files_processed = 0,
          wi_error_message = None, wi_started_at = None, wi_completed_at = None\<rparr>]\<rparr>)"

text \<open>An UPDATE rewrites every row that its WHERE clause selects and leaves the others.\<close>

definition update_workitem_status ::
  "db \<Rightarrow> string \<Rightarrow> string \<Rightarrow> string \<Rightarrow> string \<Rightarrow> string option \<Rightarrow> db" where
  "update_workitem_status d ts workitem_id job_id status error_message =
     d\<lparr>workitems := map (\<lambda>r.
        if wi_match workitem_id job_id r then
          (if status = ''in_progress'' then
             r\<lparr>wi_status := status, wi_started_at := Some ts\<rparr>
           else if status = ''completed'' \<or> status = ''failed'' then
             r\<lparr>wi_status := status, wi_completed_at := Some ts,
               wi_error_message := error_message\<rparr>
           else
             r\<lparr>wi_status := status, wi_error_message := error_message\<rparr>)
        else r) (workitems d)\<rparr>"

definition update_workitem_file_count :: "db \<Rightarrow> string \<Rightarrow> string \<Rightarrow> int \<Rightarrow> db" where
  "update_workitem_file_count d workitem_id job_id files_total =
     d\<lparr>workitems := map (\<lambda>r.
        if wi_match workitem_id job_id r then r\<lparr>wi_files_total := files_total\<rparr> else r)
        (workitems d)\<rparr>"

definition add_file :: "db \<Rightarrow> string \<Rightarrow> string \<Rightarrow> string \<Rightarrow> string \<Rightarrow> db" where
  "add_file d workitem_id job_id filename source_uri =
     (if list_ex (f_match workitem_id job_id filename) (files d) then d
      else d\<lparr>files := files d @
        [\<lparr>f_workitem_id = workitem_id, f_job_id = job_id, f_filename = filename,
          f_source_uri = source_uri, f_status = ''pending'', f_error_message = None,
          f_uploaded_at = None\<rparr>]\<rparr>)"

text \<open>
  \<^verbatim>\<open>update_file_status\<close> runs two statements: the UPDATE of the file row, and, when the
  new status is \<^verbatim>\<open>'completed'\<close>, the UPDATE that adds one to \<^verbatim>\<open>files_processed\<close> of the
  parent work item.
\<close>

definition update_file_status ::
  "db \<Rightarrow> string \<Rightarrow> string \<Rightarrow> string \<Rightarrow> string \<Rightarrow> string \<Rightarrow> string option \<Rightarrow> db" where
  "update_file_status d ts workitem_id job_id filename status error_message =
     (let d1 = d\<lparr>files := map (\<lambda>r.
                 if f_match workitem_id job_id filename r then
                   r\<lparr>f_status := status, f_error_message := error_message,
                     f_uploaded_at := Some ts\<rparr>
                 else r) (files d)\<rparr>
      in if status = ''completed'' then
           d1\<lparr>workitems := map (\<lambda>r.
              if wi_match workitem_id job_id r then
                r\<lparr>wi_files_processed := wi_files_processed r + 1\<rparr>
              else r) (workitems d1)\<rparr>
         else d1)"

text \<open>The point reads: \<^verbatim>\<open>fetchone()\<close> gives the first selected row, or None.\<close>

definition get_workitem_status :: "db \<Rightarrow> string \<Rightarrow> string \<Rightarrow> string option" where
  "get_workitem_status d workitem_id job_id =
     map_option wi_status (find (wi_match workitem_id job_id) (workitems d))"

definition get_file_status :: "db \<Rightarrow> string \<Rightarrow> string \<Rightarrow> string \<Rightarrow> string option" where
  "get_file_status d workitem_id job_id filename =
     map_option f_status (find (f_match workitem_id job_id filename) (files d))"

text \<open>
  \<^verbatim>\<open>claim_file\<close>: one conditional UPDATE; the result is \<^verbatim>\<open>cursor.rowcount == 1\<close>, the
  number of rows that the UPDATE selected.
\<close>

definition claimable :: "string \<Rightarrow> string \<Rightarrow> string \<Rightarrow> file_row \<Rightarrow> bool" where
  "claimable workitem_id job_id filename r \<longleftrightarrow>
     f_match workitem_id job_id filename r \<and> (f_status r = ''pending'' \<or> f_status r = ''failed'')"

definition claim_file :: "db \<Rightarrow> string \<Rightarrow> string \<Rightarrow> string \<Rightarrow> string \<Rightarrow> bool \<times> db" where
  "claim_file d ts workitem_id job_id filename =
     (length (filter (claimable workitem_id job_id filename) (files d)) = 1,
      d\<lparr>files := map (\<lambda>r.
         if claimable workitem_id job_id filename r then
           r\<lparr>f_status := ''in_progress'', f_error_message := None, f_uploaded_at := Some ts\<rparr>
         else r) (files d)\<rparr>)"

text \<open>
  \<^verbatim>\<open>get_pending_workitems\<close>: the keys of the rows that are not completed,
  \<^verbatim>\<open>ORDER BY workitem_id\<close>. SQLite answers the query from the index of the primary key
  \<open>(workitem_id, job_id)\<close>, so the keys come sorted by id and, for equal ids, by job id;
  the comparison of TEXT values is byte-wise.
\<close>

definition get_pending_workitems :: "db \<Rightarrow> (string \<times> string) list" where
  "get_pending_workitems d =
     sort (map wi_key (filter (\<lambda>r.
        wi_status r = ''pending'' \<or> wi_status r = ''failed'' \<or> wi_status r = ''in_progress'')
        (workitems d)))"

text \<open>A sequence of claim attempts on one file, each with its own clock reading.\<close>

fun claim_attempts :: "db \<Rightarrow> string list \<Rightarrow> string \<Rightarrow> string \<Rightarrow> string \<Rightarrow> bool list \<times> db" where
  "claim_attempts d [] workitem_id job_id filename = ([], d)"
| "claim_attempts d (ts # tss) workitem_id job_id filename =
     (let (ok, d1) = claim_file d ts workitem_id job_id filename;
          (oks, d2) = claim_attempts d1 tss workitem_id job_id filename
      in (ok # oks, d2))"

section \<open>Resolved files and their de-duplication\<close>

record FileMetadata =
  fm_job_id :: string
  fm_workitem_id :: string
  fm_workitem_name :: string
  fm_source_uri :: string
  fm_filename :: string

text \<open>\<^verbatim>\<open>os.path.basename\<close> (posixpath): what follows the last slash.\<close>

definition basename :: "string \<Rightarrow> string" where
  "basename p = rev (takeWhile (\<lambda>c. c \<noteq> CHR ''/'') (rev p))"


text \<open>
  The de-duplication loop of \<^verbatim>\<open>process_workitem\<close>. The dictionary \<^verbatim>\<open>unique_files\<close> keeps
  insertion order, so it is an association list; \<^verbatim>\<open>list(unique_files.values())\<close> is its
  list of values. The duplicate counter only feeds a log line and is left out.
\<close>

fun dedup_loop ::
  "FileMetadata list \<Rightarrow> (string \<times> FileMetadata) list \<Rightarrow> (string \<times> FileMetadata) list" where
  "dedup_loop [] unique_files = unique_files"
| "dedup_loop (file_meta # rest) unique_files =
     (let blob_key = basename (fm_filename file_meta)
      in if blob_key \<in> set (map fst unique_files) then dedup_loop rest unique_files
         else dedup_loop rest (unique_files @ [(blob_key, file_meta)]))"

definition deduplicate :: "FileMetadata list \<Rightarrow> FileMetadata list" where
  "deduplicate fs = map snd (dedup_loop fs [])"


section \<open>The work-item processor\<close>

text \<open>
  What \<^verbatim>\<open>process_workitem\<close> gets from outside the state store:
  \<^item> the metadata resolver \<^verbatim>\<open>query_files_for_workitem\<close>, which returns a file list or
    raises (\<open>Inl\<close> carries the text of the exception);
  \<^item> the outcome of \<^verbatim>\<open>reupload_file\<close> for a file: the pair it returns, or an exception
    raised by \<^verbatim>\<open>future.result()\<close>, with its formatted text;
  \<^item> the instant at which each transfer finishes: \<^verbatim>\<open>as_completed\<close> yields the futures in
    that order;
  \<^item> the shutdown event. Time is logical: the clock of a run advances by one at every
    poll of \<^verbatim>\<open>shutdown_event.is_set()\<close>; the signal handler sets the event at logical
    time \<open>shutdown_at\<close> (never, if \<open>None\<close>) and nothing clears it;
  \<^item> the wall clock \<open>now\<close>, read by the tracker methods for their timestamps.
\<close>

datatype future_result = Returned bool "string option" | Raised string

record env =
  query_files_for_workitem :: "string \<Rightarrow> string \<Rightarrow> string + FileMetadata list"
  reupload_file :: "FileMetadata \<Rightarrow> future_result"
  finish_time :: "FileMetadata \<Rightarrow> nat"
  shutdown_at :: "nat option"
  now :: "nat \<Rightarrow> string"

record world =
  store :: db
  clock :: nat

definition is_set :: "env \<Rightarrow> world \<Rightarrow> bool" where
  "is_set e st = (case shutdown_at e of None \<Rightarrow> False | Some t \<Rightarrow> t \<le> clock st)"

definition tick :: "world \<Rightarrow> world" where
  "tick st = st\<lparr>clock := Suc (clock st)\<rparr>"

definition as_completed :: "env \<Rightarrow> FileMetadata list \<Rightarrow> FileMetadata list" where
  "as_completed e fs = sort_key (finish_time e) fs"

text \<open>The loop that registers each unique file and tries to claim it.\<close>

fun claim_files ::
  "env \<Rightarrow> string \<Rightarrow> string \<Rightarrow> FileMetadata list \<Rightarrow> FileMetadata list \<Rightarrow> world \<Rightarrow>
   FileMetadata list \<times> world" where
  "claim_files e w j [] files_to_process st = (files_to_process, st)"
| "claim_files e w j (file_meta # rest) files_to_process st =
     (let d1 = add_file (store st) w j (fm_filename file_meta) (fm_source_uri file_meta)
      in if get_file_status d1 w j (fm_filename file_meta) = Some ''completed'' then
           claim_files e w j rest files_to_process (st\<lparr>store := d1\<rparr>)
         else
           (let (claimed, d2) = claim_file d1 (now e (clock st)) w j (fm_filename file_meta)
            in if claimed then
                 claim_files e w j rest (files_to_process @ [file_meta]) (st\<lparr>store := d2\<rparr>)
               else claim_files e w j rest files_to_process (st\<lparr>store := d2\<rparr>)))"

text \<open>
  The loop over \<^verbatim>\<open>as_completed(future_to_file)\<close>. Its result is \<open>None\<close> when the loop is
  left through the shutdown branch (where \<^verbatim>\<open>process_workitem\<close> returns False at once),
  and the list \<^verbatim>\<open>failed_files\<close> when it runs to its end.
\<close>

fun drain ::
  "env \<Rightarrow> string \<Rightarrow> string \<Rightarrow> FileMetadata list \<Rightarrow> string list \<Rightarrow> world \<Rightarrow>
   string list option \<times> world" where
  "drain e w j [] failed_files st = (Some failed_files, st)"
| "drain e w j (file_meta # rest) failed_files st =
     (if is_set e st then
        (None, (tick st)\<lparr>store := update_workitem_status (store st) (now e (clock st)) w j
                 ''pending'' (Some ''Shutdown requested mid-processing'')\<rparr>)
      else
        (case reupload_file e file_meta of
           Returned success error_msg \<Rightarrow>
             if success then
               drain e w j rest failed_files
                 ((tick st)\<lparr>store := update_file_status (store st) (now e (clock st)) w j
                    (fm_filename file_meta) ''completed'' None\<rparr>)
             else
               drain e w j rest (failed_files @ [fm_filename file_meta])
                 ((tick st)\<lparr>store := update_file_status (store st) (now e (clock st)) w j
                    (fm_filename file_meta) ''failed'' error_msg\<rparr>)
         | Raised error_msg \<Rightarrow>
             drain e w j rest (failed_files @ [fm_filename file_meta])
               ((tick st)\<lparr>store := update_file_status (store st) (now e (clock st)) w j
                  (fm_filename file_meta) ''failed'' (Some error_msg)\<rparr>)))"

text \<open>The text of the aggregated failure: decimal numbers and \<^verbatim>\<open>', '.join\<close>.\<close>

fun str_nat :: "nat \<Rightarrow> string" where
  "str_nat n = (if n < 10 then [''0123456789'' ! n]
                else str_nat (n div 10) @ [''0123456789'' ! (n mod 10)])"

fun join :: "string \<Rightarrow> string list \<Rightarrow> string" where
  "join sep [] = []"
| "join sep [x] = x"
| "join sep (x # y # ys) = x @ sep @ join sep (y # ys)"

definition failed_message :: "string list \<Rightarrow> string" where
  "failed_message failed_files =
     (let error_msg = str_nat (length failed_files) @ '' files failed: '' @
                      join '', '' (take 5 failed_files)
      in if length failed_files > 5 then
           error_msg @ '' and '' @ str_nat (length failed_files - 5) @ '' more''
         else error_msg)"

text \<open>
  \<^verbatim>\<open>process_workitem\<close>. The result is the returned boolean and the world after the call.
  The tracker methods of the model are total, so the outer \<^verbatim>\<open>except Exception\<close> handler
  (a storage failure inside a tracker call) has no branch here.
\<close>

definition set_status :: "env \<Rightarrow> string \<Rightarrow> string \<Rightarrow> string \<Rightarrow> string option \<Rightarrow> world \<Rightarrow> world" where
  "set_status e w j status error_message st =
     st\<lparr>store := update_workitem_status (store st) (now e (clock st)) w j status error_message\<rparr>"

definition claim_phase ::
  "env \<Rightarrow> string \<Rightarrow> string \<Rightarrow> FileMetadata list \<Rightarrow> world \<Rightarrow> FileMetadata list \<times> world" where
  "claim_phase e w j fs st =
     claim_files e w j fs []
       (st\<lparr>store := update_workitem_file_count (store st) w j (int (length fs))\<rparr>)"

definition process_files ::
  "env \<Rightarrow> string \<Rightarrow> string \<Rightarrow> FileMetadata list \<Rightarrow> world \<Rightarrow> bool \<times> world" where
  "process_files e w j fs st =
     (let (files_to_process, st1) = claim_phase e w j fs st
      in if files_to_process = [] then (True, set_status e w j ''completed'' None st1)
         else
           (case drain e w j (as_completed e files_to_process) [] st1 of
              (None, st2) \<Rightarrow> (False, st2)
            | (Some failed_files, st2) \<Rightarrow>
                if failed_files \<noteq> [] then
                  (False, set_status e w j ''failed'' (Some (failed_message failed_files)) st2)
                else (True, set_status e w j ''completed'' None st2)))"

definition process_workitem :: "env \<Rightarrow> string \<Rightarrow> string \<Rightarrow> world \<Rightarrow> bool \<times> world" where
  "process_workitem e w j st =
     (if is_set e st then (False, tick st)
      else
        (let st0 = tick st
         in if get_workitem_status (store st0) w j = Some ''completed'' then (True, st0)
            else
              (let st1 = set_status e w j ''in_progress'' None st0
               in case query_files_for_workitem e w j of
                    Inl err \<Rightarrow>
                      (False, set_status e w j ''failed''
                                (Some (''Kusto query failed: '' @ err)) st1)
                  | Inr fs \<Rightarrow>
                      if fs = [] then (True, set_status e w j ''completed'' None st1)
                      else
                        (let fs1 = deduplicate fs
                         in if is_set e st1 then
                              (False, set_status e w j ''pending'' None (tick st1))
                            else process_files e w j fs1 (tick st1)))))"

section \<open>Partition assignment\<close>

text \<open>
  \<^verbatim>\<open>belongs_to_partition\<close> calls Python's built-in \<^verbatim>\<open>hash\<close> on a string. CPython salts
  the hash of a string with a seed that it fixes when the interpreter process starts
  (\<^verbatim>\<open>PYTHONHASHSEED\<close>, random if unset), so the built-in is a family of functions, one
  for each seed: the parameter \<open>py_hash\<close>. A call is evaluated in one process and uses the
  seed of that process. The instances that share the work are separate processes, one for
  each partition index, and each has its own seed. \<^verbatim>\<open>%\<close> takes the sign of the divisor, as
  \<open>mod\<close> on \<open>int\<close> does, and raises ZeroDivisionError for a zero divisor (\<open>None\<close>).
\<close>

definition belongs_to_partition ::
  "(nat \<Rightarrow> string \<Rightarrow> int) \<Rightarrow> nat \<Rightarrow> string \<Rightarrow> int \<Rightarrow> int \<Rightarrow> bool option" where
  "belongs_to_partition py_hash seed workitem_id part total_partitions =
     (if total_partitions = 0 then None
      else Some (py_hash seed workitem_id mod total_partitions = part))"

section \<open>The scheduler (the worklist part of main)\<close>

text \<open>
  \<^verbatim>\<open>main\<close>, from \<^verbatim>\<open>get_pending_workitems\<close> to the exit status. The outer pool is modelled
  for one schedule: the work items run one after the other in worklist order, and the
  collecting loop looks at each future when it is done. The loop polls the shutdown event
  before it reads a result and leaves at once when the event is set; the futures not yet
  started are cancelled, so their work items are not touched. \<^verbatim>\<open>process_workitem\<close>
  returns a boolean, so the branch that counts \<^verbatim>\<open>skipped\<close> results is never taken.
\<close>

record counts =
  completed :: nat
  failed :: nat
  skipped :: nat

fun collect ::
  "env \<Rightarrow> (string \<times> string) list \<Rightarrow> counts \<Rightarrow> world \<Rightarrow> counts \<times> world" where
  "collect e [] c st = (c, st)"
| "collect e ((w, j) # rest) c st =
     (let (success, st1) = process_workitem e w j st
      in if is_set e st1 then (c, tick st1)
         else if success then collect e rest (c\<lparr>completed := completed c + 1\<rparr>) (tick st1)
         else collect e rest (c\<lparr>failed := failed c + 1\<rparr>) (tick st1))"

definition run_pending :: "env \<Rightarrow> world \<Rightarrow> int \<times> world" where
  "run_pending e st =
     (let pending_workitems = get_pending_workitems (store st)
      in if pending_workitems = [] then (0, st)
         else
           (let (c, st1) = collect e pending_workitems
                             \<lparr>completed = 0, failed = 0, skipped = 0\<rparr> st
            in if failed c > 0 then (1, st1) else (0, st1)))"

section \<open>Frame of a call on behalf of one work item\<close>

text \<open>
  What processing the work item \<open>(w, j)\<close> may do to the work items table: every row keeps
  its key, and the rows of the other work items stay as they are.
\<close>

definition wi_frame :: "string \<Rightarrow> string \<Rightarrow> workitem_row list \<Rightarrow> workitem_row list \<Rightarrow> bool" where
  "wi_frame w j ws ws' \<longleftrightarrow>
     list_all2 (\<lambda>r r'. wi_key r' = wi_key r \<and> (wi_match w j r \<or> r' = r)) ws ws'"

text \<open>
  The same with a description \<open>Q\<close> of what happens to the rows of \<open>(w, j)\<close> itself:
  \<open>Q r r'\<close> relates such a row before to the row after.
\<close>

definition wi_change ::
  "string \<Rightarrow> string \<Rightarrow> (workitem_row \<Rightarrow> workitem_row \<Rightarrow> bool) \<Rightarrow>
   workitem_row list \<Rightarrow> workitem_row list \<Rightarrow> bool" where
  "wi_change w j Q ws ws' \<longleftrightarrow>
     list_all2 (\<lambda>r r'. wi_key r' = wi_key r \<and> (if wi_match w j r then Q r r' else r' = r)) ws ws'"

text \<open>The number of file rows of a work item that are completed.\<close>

definition completed_files :: "db \<Rightarrow> string \<Rightarrow> string \<Rightarrow> file_row list" where
  "completed_files d w j =
     filter (\<lambda>x. f_workitem_id x = w \<and> f_job_id x = j \<and> f_status x = ''completed'') (files d)"

section \<open>Facts about the tracker methods\<close>

lemma f_match_key: "f_match w j f r \<longleftrightarrow> f_key r = (w, j, f)"
  by (auto simp: f_match_def f_key_def)

lemma wi_match_key: "wi_match w j r \<longleftrightarrow> wi_key r = (w, j)"
  by (auto simp: wi_match_def wi_key_def)

lemma filter_key_distinct:
  "distinct (map k xs) \<Longrightarrow> r \<in> set xs \<Longrightarrow> filter (\<lambda>x. k x = k r) xs = [r]"
proof (induction xs)
  case Nil
  then show ?case by simp
next
  case (Cons x xs)
  show ?case
  proof (cases "x = r")
    case True
    have "\<forall>y\<in>set xs. k y \<noteq> k r"
      using Cons.prems(1) True by (metis distinct.simps(2) image_eqI list.simps(9) set_map)
    then have "filter (\<lambda>y. k y = k r) xs = []"
      by (simp add: filter_empty_conv)
    then show ?thesis using True by simp
  next
    case False
    then have "r \<in> set xs" using Cons.prems by simp
    moreover have "k x \<noteq> k r" using Cons.prems \<open>r \<in> set xs\<close> by auto
    ultimately show ?thesis using Cons by simp
  qed
qed

lemma find_Some_mem: "find P xs = Some r \<Longrightarrow> r \<in> set xs \<and> P r"
  by (induction xs) (auto split: if_splits)

lemma get_file_status_rows:
  assumes "distinct (map f_key (files d))" "get_file_status d w j f = Some s"
  shows "\<exists>r. r \<in> set (files d) \<and> f_status r = s \<and> filter (f_match w j f) (files d) = [r]"
proof -
  from assms(2) obtain r where r: "find (f_match w j f) (files d) = Some r" "f_status r = s"
    by (auto simp: get_file_status_def)
  have mem: "r \<in> set (files d)" and m: "f_match w j f r"
    using find_Some_mem[OF r(1)] by simp_all
  have "f_key r = (w, j, f)" using m by (simp add: f_match_key)
  then have "f_match w j f = (\<lambda>x. f_key x = f_key r)"
    by (auto simp: f_match_key fun_eq_iff)
  then have "filter (f_match w j f) (files d) = filter (\<lambda>x. f_key x = f_key r) (files d)"
    by simp
  then show ?thesis using filter_key_distinct[OF assms(1) mem] r(2) mem by auto
qed

lemma get_file_status_None:
  "get_file_status d w j f = None \<longleftrightarrow> filter (f_match w j f) (files d) = []"
  by (auto simp: get_file_status_def find_None_iff filter_empty_conv)

lemma claimable_filter:
  "filter (claimable w j f) xs =
   filter (\<lambda>r. f_status r = ''pending'' \<or> f_status r = ''failed'') (filter (f_match w j f) xs)"
  by (induction xs) (auto simp: claimable_def)

lemma claim_file_noop:
  assumes "\<forall>r\<in>set (files d). \<not> claimable w j f r"
  shows "claim_file d ts w j f = (False, d)"
proof -
  have "filter (claimable w j f) (files d) = []"
    using assms by (simp add: filter_empty_conv)
  moreover have "map (\<lambda>r. if claimable w j f r
      then r\<lparr>f_status := ''in_progress'', f_error_message := None, f_uploaded_at := Some ts\<rparr>
      else r) (files d) = files d"
    using assms by (simp add: map_idI)
  ultimately show ?thesis by (simp add: claim_file_def)
qed

lemma claim_file_unclaimable:
  assumes pk: "distinct (map f_key (files d))"
    and st: "get_file_status d w j f = None \<or>
             (\<exists>s. get_file_status d w j f = Some s \<and> s \<noteq> ''pending'' \<and> s \<noteq> ''failed'')"
  shows "claim_file d ts w j f = (False, d)"
proof (rule claim_file_noop, rule ballI)
  fix r assume mem: "r \<in> set (files d)"
  show "\<not> claimable w j f r"
  proof
    assume c: "claimable w j f r"
    then have "r \<in> set (filter (f_match w j f) (files d))"
      using mem by (simp add: claimable_def)
    with st show False
    proof (elim disjE exE conjE)
      assume "get_file_status d w j f = None" "r \<in> set (filter (f_match w j f) (files d))"
      then show False by (simp add: get_file_status_None)
    next
      fix s assume s: "get_file_status d w j f = Some s" "s \<noteq> ''pending''" "s \<noteq> ''failed''"
        and "r \<in> set (filter (f_match w j f) (files d))"
      with get_file_status_rows[OF pk s(1)] have "f_status r = s"
        by (metis list.simps(15) empty_set empty_iff insert_iff)
      with c s show False by (auto simp: claimable_def)
    qed
  qed
qed

lemma find_map_pres: "(\<And>x. P (g x) = P x) \<Longrightarrow> find P (map g xs) = map_option g (find P xs)"
  by (induction xs) auto

lemma claim_file_files_key: "map f_key (files (snd (claim_file d ts w j f))) = map f_key (files d)"
  by (simp add: claim_file_def f_key_def comp_def)

lemma claim_file_workitems: "workitems (snd (claim_file d ts w j f)) = workitems d"
  by (simp add: claim_file_def)

lemma claim_file_status:
  "get_file_status (snd (claim_file d ts w j f)) w' j' f' =
     (if (w', j', f') = (w, j, f) \<and>
         (get_file_status d w j f = Some ''pending'' \<or> get_file_status d w j f = Some ''failed'')
      then Some ''in_progress'' else get_file_status d w' j' f')"
proof -
  let ?g = "\<lambda>r. if claimable w j f r
      then r\<lparr>f_status := ''in_progress'', f_error_message := None, f_uploaded_at := Some ts\<rparr>
      else r"
  have pres: "\<And>x. f_match w' j' f' (?g x) = f_match w' j' f' x" by (simp add: f_match_def)
  have eq: "get_file_status (snd (claim_file d ts w j f)) w' j' f' =
        map_option (\<lambda>r. f_status (?g r)) (find (f_match w' j' f') (files d))"
    unfolding get_file_status_def claim_file_def
    by (simp add: find_map_pres[of "f_match w' j' f'" ?g, OF pres] option.map_comp comp_def)
  show ?thesis
  proof (cases "find (f_match w' j' f') (files d)")
    case None
    then show ?thesis using eq by (auto simp: get_file_status_def)
  next
    case (Some r)
    then have m: "f_match w' j' f' r" using find_Some_mem by fastforce
    show ?thesis using eq Some m
      by (auto simp: get_file_status_def claimable_def f_match_def)
  qed
qed

lemma claim_file_claimable:
  assumes pk: "distinct (map f_key (files d))"
    and st: "get_file_status d w j f = Some s" "s = ''pending'' \<or> s = ''failed''"
  shows "fst (claim_file d ts w j f)"
proof -
  from get_file_status_rows[OF pk st(1)] obtain r where
    r: "r \<in> set (files d)" "f_status r = s" "filter (f_match w j f) (files d) = [r]" by blast
  have "filter (claimable w j f) (files d) = [r]"
    using r st(2) by (simp add: claimable_filter)
  then show "fst (claim_file d ts w j f)" by (simp add: claim_file_def)
qed

lemma claim_attempts_taken:
  assumes pk: "distinct (map f_key (files d))"
    and st: "get_file_status d w j f = None \<or>
             (\<exists>s. get_file_status d w j f = Some s \<and> s \<noteq> ''pending'' \<and> s \<noteq> ''failed'')"
  shows "claim_attempts d tss w j f = (replicate (length tss) False, d)"
  using claim_file_unclaimable[OF pk st] by (induction tss) simp_all

text \<open>
  Claim C1. On a table that satisfies its primary key, \<^verbatim>\<open>claim_file\<close> on a file whose
  status is pending or failed returns True and leaves the file in_progress; on a file whose
  status is in_progress or completed it returns False and changes nothing. So in any
  sequence of claim attempts on a pending or failed file the first attempt returns True and
  every later one returns False: exactly one succeeds.
\<close>

theorem claim_file_exactly_once:
  "primary_keys d \<Longrightarrow>
   ((get_file_status d w j f = Some ''pending'' \<or> get_file_status d w j f = Some ''failed'') \<longrightarrow>
      fst (claim_file d ts w j f) \<and>
      get_file_status (snd (claim_file d ts w j f)) w j f = Some ''in_progress'' \<and>
      fst (claim_attempts d (ts # tss) w j f) = True # replicate (length tss) False) \<and>
   ((get_file_status d w j f = Some ''in_progress'' \<or>
     get_file_status d w j f = Some ''completed'') \<longrightarrow>
      claim_file d ts w j f = (False, d))"
proof (intro conjI impI)
  assume pk: "primary_keys d"
    and st: "get_file_status d w j f = Some ''pending'' \<or> get_file_status d w j f = Some ''failed''"
  have pkf: "distinct (map f_key (files d))" using pk by (simp add: primary_keys_def)
  from st obtain s where s: "get_file_status d w j f = Some s" "s = ''pending'' \<or> s = ''failed''"
    by auto
  show ok: "fst (claim_file d ts w j f)" by (rule claim_file_claimable[OF pkf s])
  show after: "get_file_status (snd (claim_file d ts w j f)) w j f = Some ''in_progress''"
    using st by (simp add: claim_file_status)
  have pk1: "distinct (map f_key (files (snd (claim_file d ts w j f))))"
    using pkf by (simp add: claim_file_files_key)
  have "claim_attempts (snd (claim_file d ts w j f)) tss w j f =
          (replicate (length tss) False, snd (claim_file d ts w j f))"
    by (rule claim_attempts_taken[OF pk1]) (simp add: after)
  then show "fst (claim_attempts d (ts # tss) w j f) = True # replicate (length tss) False"
    using ok by (simp add: split_def)
next
  assume pk: "primary_keys d"
    and st: "get_file_status d w j f = Some ''in_progress'' \<or>
             get_file_status d w j f = Some ''completed''"
  have pkf: "distinct (map f_key (files d))" using pk by (simp add: primary_keys_def)
  show "claim_file d ts w j f = (False, d)"
    by (rule claim_file_unclaimable[OF pkf]) (use st in auto)
qed

theorem claim_file_exactly_once_witness:
  "primary_keys (add_file init_db ''W'' ''J'' ''f'' ''u'') \<and>
   get_file_status (add_file init_db ''W'' ''J'' ''f'' ''u'') ''W'' ''J'' ''f'' = Some ''pending'' \<and>
   fst (claim_file (add_file init_db ''W'' ''J'' ''f'' ''u'') ''t1'' ''W'' ''J'' ''f'') \<and>
   fst (claim_attempts (add_file init_db ''W'' ''J'' ''f'' ''u'') [''t1'', ''t2'', ''t3''] ''W'' ''J'' ''f'')
     = [True, False, False] \<and>
   primary_keys (snd (claim_file (add_file init_db ''W'' ''J'' ''f'' ''u'') ''t1'' ''W'' ''J'' ''f'')) \<and>
   get_file_status (snd (claim_file (add_file init_db ''W'' ''J'' ''f'' ''u'') ''t1'' ''W'' ''J'' ''f''))
      ''W'' ''J'' ''f'' = Some ''in_progress'' \<and>
   claim_file (snd (claim_file (add_file init_db ''W'' ''J'' ''f'' ''u'') ''t1'' ''W'' ''J'' ''f''))
      ''t2'' ''W'' ''J'' ''f''
     = (False, snd (claim_file (add_file init_db ''W'' ''J'' ''f'' ''u'') ''t1'' ''W'' ''J'' ''f''))"
proof -
  let ?d = "add_file init_db ''W'' ''J'' ''f'' ''u''"
  let ?d1 = "snd (claim_file ?d ''t1'' ''W'' ''J'' ''f'')"
  have pk: "primary_keys ?d"
    by (simp add: primary_keys_def add_file_def init_db_def f_key_def)
  have st: "get_file_status ?d ''W'' ''J'' ''f'' = Some ''pending''"
    by (simp add: get_file_status_def add_file_def init_db_def f_match_def)
  have pk1: "primary_keys ?d1"
    by (simp add: primary_keys_def add_file_def init_db_def f_key_def claim_file_def claimable_def f_match_def)
  have st1: "get_file_status ?d1 ''W'' ''J'' ''f'' = Some ''in_progress''"
    by (simp add: get_file_status_def add_file_def init_db_def f_match_def claim_file_def claimable_def)
  show ?thesis
    using claim_file_exactly_once[OF pk, of "''W''" "''J''" "''f''" "''t1''" "[''t2'', ''t3'']"]
      claim_file_exactly_once[OF pk1, of "''W''" "''J''" "''f''" "''t2''" "[]"] pk st pk1 st1
    by simp
qed

text \<open>
  Claim C10. When the files table has no row for the key, or the row is in_progress or
  completed, \<^verbatim>\<open>claim_file\<close> returns False and the database after the call is the
  database before it: no row is created, none is modified.
\<close>

theorem claim_file_not_claimable:
  "primary_keys d \<Longrightarrow>
   get_file_status d w j f = None \<or> get_file_status d w j f = Some ''in_progress'' \<or>
   get_file_status d w j f = Some ''completed'' \<Longrightarrow>
   claim_file d ts w j f = (False, d)"
proof -
  assume pk: "primary_keys d"
    and st: "get_file_status d w j f = None \<or> get_file_status d w j f = Some ''in_progress'' \<or>
             get_file_status d w j f = Some ''completed''"
  have pkf: "distinct (map f_key (files d))" using pk by (simp add: primary_keys_def)
  show ?thesis by (rule claim_file_unclaimable[OF pkf]) (use st in auto)
qed

theorem claim_file_not_claimable_witness:
  "primary_keys init_db \<and> get_file_status init_db ''W'' ''J'' ''f'' = None \<and>
   claim_file init_db ''t'' ''W'' ''J'' ''f'' = (False, init_db) \<and>
   primary_keys (update_file_status (add_file init_db ''W'' ''J'' ''f'' ''u'') ''t0''
      ''W'' ''J'' ''f'' ''completed'' None) \<and>
   get_file_status (update_file_status (add_file init_db ''W'' ''J'' ''f'' ''u'') ''t0''
      ''W'' ''J'' ''f'' ''completed'' None) ''W'' ''J'' ''f'' = Some ''completed'' \<and>
   claim_file (update_file_status (add_file init_db ''W'' ''J'' ''f'' ''u'') ''t0''
      ''W'' ''J'' ''f'' ''completed'' None) ''t'' ''W'' ''J'' ''f'' =
     (False, update_file_status (add_file init_db ''W'' ''J'' ''f'' ''u'') ''t0''
      ''W'' ''J'' ''f'' ''completed'' None)"
proof -
  let ?d = "update_file_status (add_file init_db ''W'' ''J'' ''f'' ''u'') ''t0''
      ''W'' ''J'' ''f'' ''completed'' None"
  have pk: "primary_keys init_db" by (simp add: primary_keys_def init_db_def)
  have st: "get_file_status init_db ''W'' ''J'' ''f'' = None"
    by (simp add: get_file_status_def init_db_def)
  have pk1: "primary_keys ?d"
    by (simp add: primary_keys_def init_db_def add_file_def update_file_status_def
        f_match_def f_key_def)
  have st1: "get_file_status ?d ''W'' ''J'' ''f'' = Some ''completed''"
    by (simp add: get_file_status_def init_db_def add_file_def update_file_status_def f_match_def)
  show ?thesis
    using claim_file_not_claimable[OF pk, of "''W''" "''J''" "''f''" "''t''"]
      claim_file_not_claimable[OF pk1, of "''W''" "''J''" "''f''" "''t''"] pk st pk1 st1
    by simp
qed


text \<open>
  Claim C3, as amended. \<^verbatim>\<open>update_file_status\<close> adds exactly one to \<^verbatim>\<open>files_processed\<close> of
  the parent work item when the new status is \<^verbatim>\<open>'completed'\<close>, whatever the status of
  the file was before, and leaves the counter alone for every other new status.
\<close>

theorem update_file_status_files_processed:
  "map wi_files_processed (workitems (update_file_status d ts w j f status err)) =
     map (\<lambda>r. if status = ''completed'' \<and> wi_match w j r
               then wi_files_processed r + 1 else wi_files_processed r) (workitems d)"
  by (auto simp: update_file_status_def Let_def)

text \<open>
  Claim C3, as stated, fails: a second call with \<^verbatim>\<open>'completed'\<close> on a file that is
  already completed is no transition, and still adds one to the counter.
\<close>

theorem update_file_status_twice_counterexample:
  "get_file_status
     (update_file_status (add_file (add_workitem init_db ''W'' ''N'' ''J'') ''W'' ''J'' ''f'' ''u'')
        ''t1'' ''W'' ''J'' ''f'' ''completed'' None) ''W'' ''J'' ''f'' = Some ''completed'' \<and>
   map wi_files_processed (workitems
     (update_file_status (add_file (add_workitem init_db ''W'' ''N'' ''J'') ''W'' ''J'' ''f'' ''u'')
        ''t1'' ''W'' ''J'' ''f'' ''completed'' None)) = [1] \<and>
   map wi_files_processed (workitems
     (update_file_status
       (update_file_status (add_file (add_workitem init_db ''W'' ''N'' ''J'') ''W'' ''J'' ''f'' ''u'')
          ''t1'' ''W'' ''J'' ''f'' ''completed'' None)
       ''t2'' ''W'' ''J'' ''f'' ''completed'' None)) = [2]"
  by (simp add: update_file_status_def add_file_def add_workitem_def init_db_def
      get_file_status_def f_match_def wi_match_def)

text \<open>
  Claim C8. When the stored status of the work item is already completed and the shutdown
  event is not set, \<^verbatim>\<open>process_workitem\<close> returns True and the state store after the call
  is the state store before it.
\<close>

theorem process_workitem_already_completed:
  "\<not> is_set e st \<Longrightarrow> get_workitem_status (store st) w j = Some ''completed'' \<Longrightarrow>
   fst (process_workitem e w j st) = True \<and> store (snd (process_workitem e w j st)) = store st"
  by (simp add: process_workitem_def tick_def Let_def)


theorem process_workitem_already_completed_witness:
  "\<not> is_set
       \<lparr>query_files_for_workitem = (\<lambda>w j. Inr []), reupload_file = (\<lambda>f. Returned True None),
        finish_time = (\<lambda>f. 0), shutdown_at = None, now = (\<lambda>n. ''t'')\<rparr>
       \<lparr>store = update_workitem_status (add_workitem init_db ''W'' ''N'' ''J'') ''t''
                  ''W'' ''J'' ''completed'' None, clock = 0\<rparr> \<and>
   get_workitem_status
       (update_workitem_status (add_workitem init_db ''W'' ''N'' ''J'') ''t''
          ''W'' ''J'' ''completed'' None) ''W'' ''J'' = Some ''completed'' \<and>
   fst (process_workitem
       \<lparr>query_files_for_workitem = (\<lambda>w j. Inr []), reupload_file = (\<lambda>f. Returned True None),
        finish_time = (\<lambda>f. 0), shutdown_at = None, now = (\<lambda>n. ''t'')\<rparr> ''W'' ''J''
       \<lparr>store = update_workitem_status (add_workitem init_db ''W'' ''N'' ''J'') ''t''
                  ''W'' ''J'' ''completed'' None, clock = 0\<rparr>) = True \<and>
   store (snd (process_workitem
       \<lparr>query_files_for_workitem = (\<lambda>w j. Inr []), reupload_file = (\<lambda>f. Returned True None),
        finish_time = (\<lambda>f. 0), shutdown_at = None, now = (\<lambda>n. ''t'')\<rparr> ''W'' ''J''
       \<lparr>store = update_workitem_status (add_workitem init_db ''W'' ''N'' ''J'') ''t''
                  ''W'' ''J'' ''completed'' None, clock = 0\<rparr>)) =
     update_workitem_status (add_workitem init_db ''W'' ''N'' ''J'') ''t''
        ''W'' ''J'' ''completed'' None"
proof -
  let ?e = "\<lparr>query_files_for_workitem = (\<lambda>w j. Inr []), reupload_file = (\<lambda>f. Returned True None),
        finish_time = (\<lambda>f. 0), shutdown_at = None, now = (\<lambda>n. ''t'')\<rparr>"
  let ?st = "\<lparr>store = update_workitem_status (add_workitem init_db ''W'' ''N'' ''J'') ''t''
                  ''W'' ''J'' ''completed'' None, clock = 0\<rparr>"
  have a: "\<not> is_set ?e ?st" by (simp add: is_set_def)
  have b: "get_workitem_status (store ?st) ''W'' ''J'' = Some ''completed''"
    by (simp add: get_workitem_status_def update_workitem_status_def add_workitem_def
        init_db_def wi_match_def)
  note t = process_workitem_already_completed[OF a b]
  show ?thesis using a b t by simp
qed


lemma update_workitem_status_files [simp]:
  "files (update_workitem_status d ts w j s err) = files d"
  by (simp add: update_workitem_status_def)

lemma update_workitem_file_count_files [simp]:
  "files (update_workitem_file_count d w j n) = files d"
  by (simp add: update_workitem_file_count_def)

lemma add_file_workitems [simp]: "workitems (add_file d w j f u) = workitems d"
  by (simp add: add_file_def)

lemma update_file_status_status:
  "map wi_status (workitems (update_file_status d ts w j f s err)) = map wi_status (workitems d)"
  by (auto simp: update_file_status_def Let_def)

lemma update_workitem_status_total:
  "map wi_files_total (workitems (update_workitem_status d ts w j s err)) =
      map wi_files_total (workitems d)"
  by (auto simp: update_workitem_status_def)

lemma update_workitem_status_processed:
  "map wi_files_processed (workitems (update_workitem_status d ts w j s err)) =
      map wi_files_processed (workitems d)"
  by (auto simp: update_workitem_status_def)

lemma process_workitem_empty:
  assumes a: "\<not> is_set e st" and b: "get_workitem_status (store st) w j \<noteq> Some ''completed''"
    and q: "query_files_for_workitem e w j = Inr []"
  shows "process_workitem e w j st =
    (True, set_status e w j ''completed'' None (set_status e w j ''in_progress'' None (tick st)))"
proof -
  have s0: "store (tick st) = store st" by (simp add: tick_def)
  show ?thesis
    unfolding process_workitem_def Let_def using a b q by (simp add: s0)
qed


lemma get_workitem_status_update:
  "get_workitem_status (update_workitem_status d ts w j s err) w' j' =
     (if w' = w \<and> j' = j then map_option (\<lambda>_. s) (get_workitem_status d w j)
      else get_workitem_status d w' j')"
proof -
  let ?g = "\<lambda>r. if wi_match w j r then
          (if s = ''in_progress'' then r\<lparr>wi_status := s, wi_started_at := Some ts\<rparr>
           else if s = ''completed'' \<or> s = ''failed'' then
             r\<lparr>wi_status := s, wi_completed_at := Some ts, wi_error_message := err\<rparr>
           else r\<lparr>wi_status := s, wi_error_message := err\<rparr>)
        else r"
  have pres: "\<And>x. wi_match w' j' (?g x) = wi_match w' j' x" by (simp add: wi_match_def)
  have eq: "get_workitem_status (update_workitem_status d ts w j s err) w' j' =
        map_option (\<lambda>r. wi_status (?g r)) (find (wi_match w' j') (workitems d))"
    unfolding get_workitem_status_def update_workitem_status_def
    by (simp add: find_map_pres[of "wi_match w' j'" ?g, OF pres] option.map_comp comp_def)
  show ?thesis
  proof (cases "find (wi_match w' j') (workitems d)")
    case None
    then show ?thesis using eq by (auto simp: get_workitem_status_def)
  next
    case (Some r)
    then have m: "wi_match w' j' r" using find_Some_mem by fastforce
    show ?thesis using eq Some m
      by (auto simp: get_workitem_status_def wi_match_def)
  qed
qed

text \<open>
  Claim C9, as amended. When the shutdown event is not set, the work item has a row that is
  not completed and the resolver returns the empty list, \<^verbatim>\<open>process_workitem\<close> returns True
  and the row is completed; no counter and no file row is written, so \<^verbatim>\<open>files_total\<close> and
  \<^verbatim>\<open>files_processed\<close> keep their stored values (0 and 0 on a row that \<^verbatim>\<open>add_workitem\<close>
  has just created).
\<close>

theorem process_workitem_no_files:
  "\<not> is_set e st \<Longrightarrow> get_workitem_status (store st) w j = Some s \<Longrightarrow> s \<noteq> ''completed'' \<Longrightarrow>
   query_files_for_workitem e w j = Inr [] \<Longrightarrow>
   fst (process_workitem e w j st) = True \<and>
   get_workitem_status (store (snd (process_workitem e w j st))) w j = Some ''completed'' \<and>
   map wi_files_total (workitems (store (snd (process_workitem e w j st)))) =
     map wi_files_total (workitems (store st)) \<and>
   map wi_files_processed (workitems (store (snd (process_workitem e w j st)))) =
     map wi_files_processed (workitems (store st)) \<and>
   files (store (snd (process_workitem e w j st))) = files (store st)"
proof -
  assume a: "\<not> is_set e st" and b: "get_workitem_status (store st) w j = Some s"
    and c: "s \<noteq> ''completed''" and q: "query_files_for_workitem e w j = Inr []"
  have b': "get_workitem_status (store st) w j \<noteq> Some ''completed''" using b c by simp
  note pw = process_workitem_empty[OF a b' q]
  show ?thesis
    unfolding pw using b
    by (simp add: set_status_def tick_def get_workitem_status_update
        update_workitem_status_total update_workitem_status_processed)
qed

theorem process_workitem_no_files_witness:
  "\<not> is_set
       \<lparr>query_files_for_workitem = (\<lambda>w j. Inr []), reupload_file = (\<lambda>f. Returned True None),
        finish_time = (\<lambda>f. 0), shutdown_at = None, now = (\<lambda>n. ''t'')\<rparr>
       \<lparr>store = add_workitem init_db ''W'' ''N'' ''J'', clock = 0\<rparr> \<and>
   get_workitem_status (add_workitem init_db ''W'' ''N'' ''J'') ''W'' ''J'' = Some ''pending'' \<and>
   fst (process_workitem
       \<lparr>query_files_for_workitem = (\<lambda>w j. Inr []), reupload_file = (\<lambda>f. Returned True None),
        finish_time = (\<lambda>f. 0), shutdown_at = None, now = (\<lambda>n. ''t'')\<rparr> ''W'' ''J''
       \<lparr>store = add_workitem init_db ''W'' ''N'' ''J'', clock = 0\<rparr>) = True \<and>
   get_workitem_status (store (snd (process_workitem
       \<lparr>query_files_for_workitem = (\<lambda>w j. Inr []), reupload_file = (\<lambda>f. Returned True None),
        finish_time = (\<lambda>f. 0), shutdown_at = None, now = (\<lambda>n. ''t'')\<rparr> ''W'' ''J''
       \<lparr>store = add_workitem init_db ''W'' ''N'' ''J'', clock = 0\<rparr>))) ''W'' ''J''
     = Some ''completed'' \<and>
   map wi_files_total (workitems (store (snd (process_workitem
       \<lparr>query_files_for_workitem = (\<lambda>w j. Inr []), reupload_file = (\<lambda>f. Returned True None),
        finish_time = (\<lambda>f. 0), shutdown_at = None, now = (\<lambda>n. ''t'')\<rparr> ''W'' ''J''
       \<lparr>store = add_workitem init_db ''W'' ''N'' ''J'', clock = 0\<rparr>)))) = [0] \<and>
   map wi_files_processed (workitems (store (snd (process_workitem
       \<lparr>query_files_for_workitem = (\<lambda>w j. Inr []), reupload_file = (\<lambda>f. Returned True None),
        finish_time = (\<lambda>f. 0), shutdown_at = None, now = (\<lambda>n. ''t'')\<rparr> ''W'' ''J''
       \<lparr>store = add_workitem init_db ''W'' ''N'' ''J'', clock = 0\<rparr>)))) = [0]"
proof -
  let ?e = "\<lparr>query_files_for_workitem = (\<lambda>w j. Inr []), reupload_file = (\<lambda>f. Returned True None),
        finish_time = (\<lambda>f. 0), shutdown_at = None, now = (\<lambda>n. ''t'')\<rparr>"
  let ?st = "\<lparr>store = add_workitem init_db ''W'' ''N'' ''J'', clock = 0\<rparr>"
  have a: "\<not> is_set ?e ?st" by (simp add: is_set_def)
  have b: "get_workitem_status (store ?st) ''W'' ''J'' = Some ''pending''"
    by (simp add: get_workitem_status_def add_workitem_def init_db_def wi_match_def)
  have c: "''pending'' \<noteq> ''completed''" by simp
  have q: "query_files_for_workitem ?e ''W'' ''J'' = Inr []" by simp
  have w: "workitems (store ?st) =
      [\<lparr>wi_workitem_id = ''W'', wi_workitem_name = ''N'', wi_job_id = ''J'',
        wi_status = ''pending'', wi_files_total = 0, wi_files_processed = 0,
        wi_error_message = None, wi_started_at = None, wi_completed_at = None\<rparr>]"
    by (simp add: add_workitem_def init_db_def)
  note t = process_workitem_no_files[OF a b c q]
  show ?thesis using a b t unfolding w by simp
qed

text \<open>
  Claim C9, as stated, fails on a work item that an earlier run left failed with two files
  counted and one processed: the empty resolution completes it and both counters stay.
\<close>

theorem process_workitem_no_files_counterexample:
  "fst (process_workitem
       \<lparr>query_files_for_workitem = (\<lambda>w j. Inr []), reupload_file = (\<lambda>f. Returned True None),
        finish_time = (\<lambda>f. 0), shutdown_at = None, now = (\<lambda>n. ''t'')\<rparr> ''W'' ''J''
       \<lparr>store = \<lparr>workitems =
           [\<lparr>wi_workitem_id = ''W'', wi_workitem_name = ''N'', wi_job_id = ''J'',
             wi_status = ''failed'', wi_files_total = 2, wi_files_processed = 1,
             wi_error_message = Some ''1 files failed: b'', wi_started_at = Some ''t'',
             wi_completed_at = Some ''t''\<rparr>],
         files =
           [\<lparr>f_workitem_id = ''W'', f_job_id = ''J'', f_filename = ''a'', f_source_uri = ''u'',
             f_status = ''completed'', f_error_message = None, f_uploaded_at = Some ''t''\<rparr>,
            \<lparr>f_workitem_id = ''W'', f_job_id = ''J'', f_filename = ''b'', f_source_uri = ''u'',
             f_status = ''failed'', f_error_message = Some ''Upload failed'',
             f_uploaded_at = Some ''t''\<rparr>]\<rparr>, clock = 0\<rparr>) = True \<and>
   workitems (store (snd (process_workitem
       \<lparr>query_files_for_workitem = (\<lambda>w j. Inr []), reupload_file = (\<lambda>f. Returned True None),
        finish_time = (\<lambda>f. 0), shutdown_at = None, now = (\<lambda>n. ''t'')\<rparr> ''W'' ''J''
       \<lparr>store = \<lparr>workitems =
           [\<lparr>wi_workitem_id = ''W'', wi_workitem_name = ''N'', wi_job_id = ''J'',
             wi_status = ''failed'', wi_files_total = 2, wi_files_processed = 1,
             wi_error_message = Some ''1 files failed: b'', wi_started_at = Some ''t'',
             wi_completed_at = Some ''t''\<rparr>],
         files =
           [\<lparr>f_workitem_id = ''W'', f_job_id = ''J'', f_filename = ''a'', f_source_uri = ''u'',
             f_status = ''completed'', f_error_message = None, f_uploaded_at = Some ''t''\<rparr>,
            \<lparr>f_workitem_id = ''W'', f_job_id = ''J'', f_filename = ''b'', f_source_uri = ''u'',
             f_status = ''failed'', f_error_message = Some ''Upload failed'',
             f_uploaded_at = Some ''t''\<rparr>]\<rparr>, clock = 0\<rparr>))) =
     [\<lparr>wi_workitem_id = ''W'', wi_workitem_name = ''N'', wi_job_id = ''J'',
       wi_status = ''completed'', wi_files_total = 2, wi_files_processed = 1,
       wi_error_message = None, wi_started_at = Some ''t'', wi_completed_at = Some ''t''\<rparr>]"
  by code_simp


section \<open>Facts about the processor and the scheduler\<close>

subsection \<open>The frame of the work items table\<close>

lemma wi_frame_refl [simp]: "wi_frame w j ws ws"
  by (simp add: wi_frame_def list_all2_same)

lemma wi_frame_trans:
  "wi_frame w j ws ws' \<Longrightarrow> wi_frame w j ws' ws'' \<Longrightarrow> wi_frame w j ws ws''"
proof -
  assume a: "wi_frame w j ws ws'" and b: "wi_frame w j ws' ws''"
  show ?thesis
    unfolding wi_frame_def
    by (rule list_all2_trans[OF _ a[unfolded wi_frame_def] b[unfolded wi_frame_def]])
       (auto simp: wi_match_key)
qed

lemma wi_frame_map:
  "(\<And>r. wi_key (g r) = wi_key r) \<Longrightarrow> (\<And>r. \<not> wi_match w j r \<Longrightarrow> g r = r) \<Longrightarrow>
   wi_frame w j ws (map g ws)"
  unfolding wi_frame_def by (auto simp: list_all2_map2 list_all2_same)

lemma wi_frame_update_workitem_status:
  "wi_frame w j (workitems d) (workitems (update_workitem_status d ts w j s err))"
  unfolding update_workitem_status_def
  by (simp, rule wi_frame_map) (auto simp: wi_key_def)

lemma wi_frame_update_workitem_file_count:
  "wi_frame w j (workitems d) (workitems (update_workitem_file_count d w j n))"
  unfolding update_workitem_file_count_def
  by (simp, rule wi_frame_map) (auto simp: wi_key_def)

lemma wi_frame_update_file_status:
  "wi_frame w j (workitems d) (workitems (update_file_status d ts w j f s err))"
  unfolding update_file_status_def Let_def
  by (auto intro!: wi_frame_map simp: wi_key_def)

lemma wi_frame_find_other:
  assumes "wi_frame w j ws ws'" "\<not> (w' = w \<and> j' = j)"
  shows "find (wi_match w' j') ws' = find (wi_match w' j') ws"
  using assms(1) unfolding wi_frame_def
proof (induction rule: list_all2_induct)
  case Nil
  then show ?case by simp
next
  case (Cons r rs r' rs')
  then show ?case using assms(2) by (auto simp: wi_match_key)
qed

lemma wi_frame_find_exists:
  assumes "wi_frame w j ws ws'"
  shows "find (wi_match w' j') ws' = None \<longleftrightarrow> find (wi_match w' j') ws = None"
  using assms unfolding wi_frame_def
proof (induction rule: list_all2_induct)
  case Nil
  then show ?case by simp
next
  case (Cons r rs r' rs')
  then show ?case by (auto simp: wi_match_key)
qed

lemma wi_frame_status_other:
  "wi_frame w j (workitems d) (workitems d') \<Longrightarrow> \<not> (w' = w \<and> j' = j) \<Longrightarrow>
   get_workitem_status d' w' j' = get_workitem_status d w' j'"
  by (simp add: get_workitem_status_def wi_frame_find_other)

lemma wi_frame_status_exists:
  "wi_frame w j (workitems d) (workitems d') \<Longrightarrow>
   get_workitem_status d' w' j' = None \<longleftrightarrow> get_workitem_status d w' j' = None"
  by (simp add: get_workitem_status_def wi_frame_find_exists)

subsection \<open>The two loops\<close>

lemma claim_files_workitems:
  "workitems (store (snd (claim_files e w j fs acc st))) = workitems (store st)"
proof (induction fs arbitrary: acc st)
  case Nil
  then show ?case by simp
next
  case (Cons f fs)
  show ?case
    by (simp add: Let_def split_def Cons.IH claim_file_workitems)
qed

lemma claim_files_clock: "clock (snd (claim_files e w j fs acc st)) = clock st"
proof (induction fs arbitrary: acc st)
  case Nil
  then show ?case by simp
next
  case (Cons f fs)
  show ?case by (simp add: Let_def split_def Cons.IH)
qed

lemma drain_frame:
  "wi_frame w j (workitems (store st)) (workitems (store (snd (drain e w j futs ff st))))"
proof (induction futs arbitrary: ff st)
  case Nil
  then show ?case by simp
next
  case (Cons f futs)
  have step: "\<And>s err ff'. wi_frame w j (workitems (store st))
      (workitems (store (snd (drain e w j futs ff'
         ((tick st)\<lparr>store := update_file_status (store st) (now e (clock st)) w j
                    (fm_filename f) s err\<rparr>)))))"
    by (rule wi_frame_trans[OF _ Cons.IH]) (simp add: wi_frame_update_file_status)
  show ?case
  proof (cases "is_set e st")
    case True
    then show ?thesis by (simp add: wi_frame_update_workitem_status)
  next
    case False
    then show ?thesis
      by (cases "reupload_file e f") (simp_all add: step)
  qed
qed

lemma tick_store [simp]: "store (tick st) = store st"
  by (simp add: tick_def)

lemma tick_clock [simp]: "clock (tick st) = Suc (clock st)"
  by (simp add: tick_def)

lemma set_status_clock [simp]: "clock (set_status e w j s err st) = clock st"
  by (simp add: set_status_def)

lemma set_status_files [simp]: "files (store (set_status e w j s err st)) = files (store st)"
  by (simp add: set_status_def)

lemma set_status_frame:
  "wi_frame w j (workitems (store st)) (workitems (store (set_status e w j s err st)))"
  by (simp add: set_status_def wi_frame_update_workitem_status)

lemma set_status_get:
  "get_workitem_status (store (set_status e w j s err st)) w j =
     map_option (\<lambda>_. s) (get_workitem_status (store st) w j)"
  by (simp add: set_status_def get_workitem_status_update)

lemma is_set_mono: "is_set e st \<Longrightarrow> clock st \<le> clock st' \<Longrightarrow> is_set e st'"
  by (auto simp: is_set_def split: option.splits)

lemma claim_phase_frame:
  "wi_frame w j (workitems (store st)) (workitems (store (snd (claim_phase e w j fs st))))"
  by (simp add: claim_phase_def claim_files_workitems wi_frame_update_workitem_file_count)

lemma claim_phase_clock [simp]: "clock (snd (claim_phase e w j fs st)) = clock st"
  by (simp add: claim_phase_def claim_files_clock)

lemma process_files_frame:
  "wi_frame w j (workitems (store st)) (workitems (store (snd (process_files e w j fs st))))"
proof -
  obtain tp st1 where cp: "claim_phase e w j fs st = (tp, st1)" by (cases "claim_phase e w j fs st")
  have f1: "wi_frame w j (workitems (store st)) (workitems (store st1))"
    using claim_phase_frame[of w j st e fs] cp by simp
  show ?thesis
  proof (cases "tp = []")
    case True
    then show ?thesis using cp
      by (simp add: process_files_def wi_frame_trans[OF f1 set_status_frame])
  next
    case False
    obtain r st2 where dr: "drain e w j (as_completed e tp) [] st1 = (r, st2)"
      by (cases "drain e w j (as_completed e tp) [] st1")
    have f2: "wi_frame w j (workitems (store st)) (workitems (store st2))"
      using wi_frame_trans[OF f1 drain_frame[of w j st1 e "as_completed e tp" "[]"]] dr by simp
    show ?thesis using False cp dr f2
      by (cases r) (simp_all add: process_files_def wi_frame_trans[OF f2 set_status_frame])
  qed
qed

lemma process_files_True:
  assumes "process_files e w j fs st = (True, st')"
  shows "\<exists>st1. st' = set_status e w j ''completed'' None st1 \<and>
           wi_frame w j (workitems (store st)) (workitems (store st1))"
proof -
  obtain tp st1 where cp: "claim_phase e w j fs st = (tp, st1)" by (cases "claim_phase e w j fs st")
  have f1: "wi_frame w j (workitems (store st)) (workitems (store st1))"
    using claim_phase_frame[of w j st e fs] cp by simp
  show ?thesis
  proof (cases "tp = []")
    case True
    then show ?thesis using cp assms f1 by (auto simp: process_files_def)
  next
    case False
    obtain r st2 where dr: "drain e w j (as_completed e tp) [] st1 = (r, st2)"
      by (cases "drain e w j (as_completed e tp) [] st1")
    have f2: "wi_frame w j (workitems (store st)) (workitems (store st2))"
      using wi_frame_trans[OF f1 drain_frame[of w j st1 e "as_completed e tp" "[]"]] dr by simp
    show ?thesis using False cp dr f2 assms
      by (cases r) (auto simp: process_files_def split: if_splits)
  qed
qed

lemma process_workitem_frame:
  "wi_frame w j (workitems (store st)) (workitems (store (snd (process_workitem e w j st))))"
proof -
  let ?st1 = "set_status e w j ''in_progress'' None (tick st)"
  have f1: "wi_frame w j (workitems (store st)) (workitems (store ?st1))"
    using set_status_frame[of w j "tick st" e "''in_progress''" None] by simp
  have f2: "\<And>s err. wi_frame w j (workitems (store st))
              (workitems (store (set_status e w j s err ?st1)))"
    by (rule wi_frame_trans[OF f1 set_status_frame])
  have f3: "wi_frame w j (workitems (store st))
              (workitems (store (set_status e w j s err (tick ?st1))))" for s err
  proof -
    have "wi_frame w j (workitems (store ?st1))
              (workitems (store (set_status e w j s err (tick ?st1))))"
      using set_status_frame[of w j "tick ?st1" e s err] by simp
    then show ?thesis by (rule wi_frame_trans[OF f1])
  qed
  have f4: "wi_frame w j (workitems (store st))
              (workitems (store (snd (process_files e w j fs (tick ?st1)))))" for fs
  proof -
    have "wi_frame w j (workitems (store ?st1))
              (workitems (store (snd (process_files e w j fs (tick ?st1)))))"
      using process_files_frame[of w j "tick ?st1" e fs] by simp
    then show ?thesis by (rule wi_frame_trans[OF f1])
  qed
  show ?thesis
    unfolding process_workitem_def Let_def
    by (cases "query_files_for_workitem e w j") (simp_all add: f2 f3 f4)
qed

lemma process_workitem_True:
  assumes "process_workitem e w j st = (True, st')"
    and ex: "get_workitem_status (store st) w j \<noteq> None"
  shows "get_workitem_status (store st') w j = Some ''completed''"
proof -
  let ?st1 = "set_status e w j ''in_progress'' None (tick st)"
  have ex1: "get_workitem_status (store ?st1) w j \<noteq> None"
    using ex by (simp add: set_status_get)
  have fin: "get_workitem_status (store (set_status e w j ''completed'' None stx)) w j
               = Some ''completed''"
    if fr: "wi_frame w j (workitems (store ?st1)) (workitems (store stx))" for stx
  proof -
    have "get_workitem_status (store stx) w j \<noteq> None"
      using wi_frame_status_exists[OF fr, of w j] ex1 by simp
    then show ?thesis by (auto simp: set_status_get)
  qed
  show ?thesis
  proof (cases "is_set e st")
    case True
    then show ?thesis using assms by (simp add: process_workitem_def)
  next
    case ns: False
    show ?thesis
    proof (cases "get_workitem_status (store st) w j = Some ''completed''")
      case True
      then show ?thesis using assms ns by (auto simp: process_workitem_def Let_def)
    next
      case nc: False
      show ?thesis
      proof (cases "query_files_for_workitem e w j")
        case (Inl err)
        then show ?thesis using assms ns nc by (simp add: process_workitem_def Let_def)
      next
        case (Inr fs)
        show ?thesis
        proof (cases "fs = []")
          case True
          then have "st' = set_status e w j ''completed'' None ?st1"
            using assms ns nc Inr by (simp add: process_workitem_def Let_def)
          then show ?thesis using fin[of ?st1] by simp
        next
          case False
          then have pf: "\<not> is_set e ?st1 \<and>
              process_files e w j (deduplicate fs) (tick ?st1) = (True, st')"
            using assms ns nc Inr by (simp add: process_workitem_def Let_def split: if_splits)
          from process_files_True[OF pf[THEN conjunct2]] obtain stx where
            stx: "st' = set_status e w j ''completed'' None stx"
              "wi_frame w j (workitems (store (tick ?st1))) (workitems (store stx))" by blast
          show ?thesis using fin[of stx] stx by simp
        qed
      qed
    qed
  qed
qed

lemma process_workitem_completed_kept:
  assumes "get_workitem_status (store st) w' j' = Some ''completed''"
  shows "get_workitem_status (store (snd (process_workitem e w j st))) w' j' = Some ''completed''"
proof (cases "w' = w \<and> j' = j")
  case True
  then show ?thesis using assms by (simp add: process_workitem_def Let_def)
next
  case False
  then show ?thesis
    using wi_frame_status_other[OF process_workitem_frame[of w j st e], of w' j'] assms by simp
qed

subsection \<open>The collecting loop\<close>

lemma is_set_never: "shutdown_at e = None \<Longrightarrow> \<not> is_set e st"
  by (simp add: is_set_def)

lemma collect_failed_mono: "failed c \<le> failed (fst (collect e wl c st))"
proof (induction wl arbitrary: c st)
  case Nil
  then show ?case by simp
next
  case (Cons x wl)
  obtain w j where x: "x = (w, j)" by (cases x)
  obtain ok st1 where p: "process_workitem e w j st = (ok, st1)"
    by (cases "process_workitem e w j st")
  have a: "failed c \<le> failed (fst (collect e wl (c\<lparr>completed := completed c + 1\<rparr>) (tick st1)))"
    using Cons.IH[of "c\<lparr>completed := completed c + 1\<rparr>" "tick st1"] by simp
  have b: "failed c \<le> failed (fst (collect e wl (c\<lparr>failed := failed c + 1\<rparr>) (tick st1)))"
    using Cons.IH[of "c\<lparr>failed := failed c + 1\<rparr>" "tick st1"] by simp
  show ?case using a b by (simp add: x p)
qed

lemma collect_completed_kept:
  "get_workitem_status (store st) w' j' = Some ''completed'' \<Longrightarrow>
   get_workitem_status (store (snd (collect e wl c st))) w' j' = Some ''completed''"
proof (induction wl arbitrary: c st)
  case Nil
  then show ?case by simp
next
  case (Cons x wl)
  obtain w j where x: "x = (w, j)" by (cases x)
  obtain ok st1 where p: "process_workitem e w j st = (ok, st1)"
    by (cases "process_workitem e w j st")
  have k: "get_workitem_status (store (tick st1)) w' j' = Some ''completed''"
    using process_workitem_completed_kept[OF Cons.prems, of e w j] p by simp
  show ?case using Cons.IH[OF k] k by (simp add: x p)
qed

lemma collect_all_completed:
  assumes ns: "shutdown_at e = None"
  shows "failed (fst (collect e wl c st)) = failed c \<Longrightarrow> (w', j') \<in> set wl \<Longrightarrow>
         get_workitem_status (store st) w' j' \<noteq> None \<Longrightarrow>
         get_workitem_status (store (snd (collect e wl c st))) w' j' = Some ''completed''"
proof (induction wl arbitrary: c st)
  case Nil
  then show ?case by simp
next
  case (Cons x wl)
  obtain w j where x: "x = (w, j)" by (cases x)
  obtain ok st1 where p: "process_workitem e w j st = (ok, st1)"
    by (cases "process_workitem e w j st")
  have nset: "\<not> is_set e st1" by (rule is_set_never[OF ns])
  have ok: ok
  proof (rule ccontr)
    assume "\<not> ok"
    then have "fst (collect e (x # wl) c st) =
        fst (collect e wl (c\<lparr>failed := failed c + 1\<rparr>) (tick st1))"
      using nset by (simp add: x p)
    moreover have "failed c + 1 \<le> failed (fst (collect e wl (c\<lparr>failed := failed c + 1\<rparr>) (tick st1)))"
      using collect_failed_mono[of "c\<lparr>failed := failed c + 1\<rparr>" e wl "tick st1"] by simp
    ultimately show False using Cons.prems(1) by simp
  qed
  let ?c1 = "c\<lparr>completed := completed c + 1\<rparr>"
  have eq: "collect e (x # wl) c st = collect e wl ?c1 (tick st1)"
    using nset ok by (simp add: x p)
  have fl: "failed (fst (collect e wl ?c1 (tick st1))) = failed ?c1"
    using Cons.prems(1) eq by simp
  have ex1: "get_workitem_status (store (tick st1)) w' j' \<noteq> None"
    using wi_frame_status_exists[OF process_workitem_frame[of w j st e], of w' j'] p Cons.prems(3)
    by simp
  show ?case
  proof (cases "(w', j') = (w, j)")
    case True
    then have "get_workitem_status (store st1) w' j' = Some ''completed''"
      using process_workitem_True[of e w j st st1] p ok Cons.prems(3) by simp
    then have "get_workitem_status (store (tick st1)) w' j' = Some ''completed''" by simp
    from collect_completed_kept[OF this] show ?thesis by (simp add: eq)
  next
    case False
    then have mem: "(w', j') \<in> set wl" using Cons.prems(2) x by auto
    show ?thesis using Cons.IH[OF fl mem ex1] by (simp add: eq)
  qed
qed

lemma get_pending_workitems_exists:
  assumes "(w, j) \<in> set (get_pending_workitems d)"
  shows "get_workitem_status d w j \<noteq> None"
proof -
  from assms obtain r where r: "r \<in> set (workitems d)" "wi_key r = (w, j)"
    by (auto simp: get_pending_workitems_def)
  then have "wi_match w j r" by (simp add: wi_match_key)
  then have "find (wi_match w j) (workitems d) \<noteq> None"
    using r(1) by (auto simp: find_None_iff)
  then show ?thesis by (simp add: get_workitem_status_def)
qed

text \<open>
  Claim C7, as amended. In a run in which the shutdown event is never set, the exit status
  is 0 or 1; it is 0 only if every work item of the worklist is completed in the final
  store; and if some work item of the worklist is failed in the final store, it is 1.
\<close>

theorem exit_status_without_shutdown:
  "shutdown_at e = None \<Longrightarrow>
   (fst (run_pending e st) = 0 \<or> fst (run_pending e st) = 1) \<and>
   (fst (run_pending e st) = 0 \<longrightarrow>
      (\<forall>(w, j)\<in>set (get_pending_workitems (store st)).
         get_workitem_status (store (snd (run_pending e st))) w j = Some ''completed'')) \<and>
   ((\<exists>(w, j)\<in>set (get_pending_workitems (store st)).
         get_workitem_status (store (snd (run_pending e st))) w j = Some ''failed'') \<longrightarrow>
      fst (run_pending e st) = 1)"
proof -
  assume ns: "shutdown_at e = None"
  let ?wl = "get_pending_workitems (store st)"
  let ?c0 = "\<lparr>completed = 0, failed = 0, skipped = 0\<rparr>"
  have a: "fst (run_pending e st) = 0 \<or> fst (run_pending e st) = 1"
    by (simp add: run_pending_def Let_def split_def)
  have b: "get_workitem_status (store (snd (run_pending e st))) w j = Some ''completed''"
    if z: "fst (run_pending e st) = 0" and mem: "(w, j) \<in> set ?wl" for w j
  proof -
    have ne: "?wl \<noteq> []" using mem by auto
    have f0: "failed (fst (collect e ?wl ?c0 st)) = failed ?c0"
      using z ne by (simp add: run_pending_def Let_def split_def split: if_splits)
    have "snd (run_pending e st) = snd (collect e ?wl ?c0 st)"
      using ne by (simp add: run_pending_def Let_def split_def)
    then show ?thesis
      using collect_all_completed[OF ns f0 mem get_pending_workitems_exists[OF mem]] by simp
  qed
  have c: "fst (run_pending e st) = 1"
    if "\<exists>(w, j)\<in>set ?wl. get_workitem_status (store (snd (run_pending e st))) w j = Some ''failed''"
  proof (rule ccontr)
    assume "fst (run_pending e st) \<noteq> 1"
    then have z: "fst (run_pending e st) = 0" using a by simp
    from that obtain w j where mem: "(w, j) \<in> set ?wl"
      and f: "get_workitem_status (store (snd (run_pending e st))) w j = Some ''failed''" by auto
    from b[OF z mem] f show False by simp
  qed
  show ?thesis using a b c by blast
qed

theorem exit_status_without_shutdown_witness:
  "shutdown_at
     \<lparr>query_files_for_workitem = (\<lambda>w j. Inr
         [\<lparr>fm_job_id = ''J'', fm_workitem_id = ''W'', fm_workitem_name = ''N'',
           fm_source_uri = ''u'', fm_filename = ''a.json''\<rparr>]),
      reupload_file = (\<lambda>f. Returned True None), finish_time = (\<lambda>f. 0),
      shutdown_at = None, now = (\<lambda>n. ''t'')\<rparr> = None \<and>
   (''W'', ''J'') \<in> set (get_pending_workitems (add_workitem init_db ''W'' ''N'' ''J'')) \<and>
   fst (run_pending
     \<lparr>query_files_for_workitem = (\<lambda>w j. Inr
         [\<lparr>fm_job_id = ''J'', fm_workitem_id = ''W'', fm_workitem_name = ''N'',
           fm_source_uri = ''u'', fm_filename = ''a.json''\<rparr>]),
      reupload_file = (\<lambda>f. Returned True None), finish_time = (\<lambda>f. 0),
      shutdown_at = None, now = (\<lambda>n. ''t'')\<rparr>
     \<lparr>store = add_workitem init_db ''W'' ''N'' ''J'', clock = 0\<rparr>) = 0 \<and>
   get_workitem_status (store (snd (run_pending
     \<lparr>query_files_for_workitem = (\<lambda>w j. Inr
         [\<lparr>fm_job_id = ''J'', fm_workitem_id = ''W'', fm_workitem_name = ''N'',
           fm_source_uri = ''u'', fm_filename = ''a.json''\<rparr>]),
      reupload_file = (\<lambda>f. Returned True None), finish_time = (\<lambda>f. 0),
      shutdown_at = None, now = (\<lambda>n. ''t'')\<rparr>
     \<lparr>store = add_workitem init_db ''W'' ''N'' ''J'', clock = 0\<rparr>))) ''W'' ''J''
     = Some ''completed'' \<and>
   get_workitem_status (store (snd (run_pending
     \<lparr>query_files_for_workitem = (\<lambda>w j. Inl ''boom''),
      reupload_file = (\<lambda>f. Returned True None), finish_time = (\<lambda>f. 0),
      shutdown_at = None, now = (\<lambda>n. ''t'')\<rparr>
     \<lparr>store = add_workitem init_db ''W'' ''N'' ''J'', clock = 0\<rparr>))) ''W'' ''J''
     = Some ''failed'' \<and>
   fst (run_pending
     \<lparr>query_files_for_workitem = (\<lambda>w j. Inl ''boom''),
      reupload_file = (\<lambda>f. Returned True None), finish_time = (\<lambda>f. 0),
      shutdown_at = None, now = (\<lambda>n. ''t'')\<rparr>
     \<lparr>store = add_workitem init_db ''W'' ''N'' ''J'', clock = 0\<rparr>) = 1"
proof -
  let ?e1 = "\<lparr>query_files_for_workitem = (\<lambda>w j. Inr
         [\<lparr>fm_job_id = ''J'', fm_workitem_id = ''W'', fm_workitem_name = ''N'',
           fm_source_uri = ''u'', fm_filename = ''a.json''\<rparr>]),
      reupload_file = (\<lambda>f. Returned True None), finish_time = (\<lambda>f. 0),
      shutdown_at = None, now = (\<lambda>n. ''t'')\<rparr>"
  let ?e2 = "\<lparr>query_files_for_workitem = (\<lambda>w j. Inl ''boom''),
      reupload_file = (\<lambda>f. Returned True None), finish_time = (\<lambda>f. 0),
      shutdown_at = None, now = (\<lambda>n. ''t'')\<rparr>"
  let ?st = "\<lparr>store = add_workitem init_db ''W'' ''N'' ''J'', clock = 0\<rparr>"
  have n1: "shutdown_at ?e1 = None" by simp
  have n2: "shutdown_at ?e2 = None" by simp
  have mem: "(''W'', ''J'') \<in> set (get_pending_workitems (store ?st))"
    by (simp add: get_pending_workitems_def add_workitem_def init_db_def wi_key_def)
  have z: "fst (run_pending ?e1 ?st) = 0" by code_simp
  have f: "get_workitem_status (store (snd (run_pending ?e2 ?st))) ''W'' ''J'' = Some ''failed''"
    by code_simp
  note t1 = exit_status_without_shutdown[OF n1, of ?st, THEN conjunct2, THEN conjunct1,
      rule_format, OF z mem]
  have ex: "\<exists>(w, j)\<in>set (get_pending_workitems (store ?st)).
      get_workitem_status (store (snd (run_pending ?e2 ?st))) w j = Some ''failed''"
    using mem f by blast
  note t2 = exit_status_without_shutdown[OF n2, of ?st, THEN conjunct2, THEN conjunct2,
      rule_format, OF ex]
  show ?thesis
    using n1 mem z t1 f t2 by simp
qed

text \<open>
  Claim C7, as stated, fails once the shutdown event is set: the collecting loop stops
  reading results. First run: the resolver fails, the work item ends failed, the signal
  arrives before the loop reads the result, and the exit status is 0. Second run: the
  signal arrives while the files of the work item are drained, the work item ends pending,
  and the exit status is 0.
\<close>

theorem exit_status_counterexample:
  "fst (run_pending
     \<lparr>query_files_for_workitem = (\<lambda>w j. Inl ''boom''),
      reupload_file = (\<lambda>f. Returned True None), finish_time = (\<lambda>f. 0),
      shutdown_at = Some 1, now = (\<lambda>n. ''t'')\<rparr>
     \<lparr>store = add_workitem init_db ''W'' ''N'' ''J'', clock = 0\<rparr>) = 0 \<and>
   get_workitem_status (store (snd (run_pending
     \<lparr>query_files_for_workitem = (\<lambda>w j. Inl ''boom''),
      reupload_file = (\<lambda>f. Returned True None), finish_time = (\<lambda>f. 0),
      shutdown_at = Some 1, now = (\<lambda>n. ''t'')\<rparr>
     \<lparr>store = add_workitem init_db ''W'' ''N'' ''J'', clock = 0\<rparr>))) ''W'' ''J''
     = Some ''failed'' \<and>
   fst (run_pending
     \<lparr>query_files_for_workitem = (\<lambda>w j. Inr
         [\<lparr>fm_job_id = ''J'', fm_workitem_id = ''W'', fm_workitem_name = ''N'',
           fm_source_uri = ''u'', fm_filename = ''a.json''\<rparr>]),
      reupload_file = (\<lambda>f. Returned True None), finish_time = (\<lambda>f. 0),
      shutdown_at = Some 2, now = (\<lambda>n. ''t'')\<rparr>
     \<lparr>store = add_workitem init_db ''W'' ''N'' ''J'', clock = 0\<rparr>) = 0 \<and>
   get_workitem_status (store (snd (run_pending
     \<lparr>query_files_for_workitem = (\<lambda>w j. Inr
         [\<lparr>fm_job_id = ''J'', fm_workitem_id = ''W'', fm_workitem_name = ''N'',
           fm_source_uri = ''u'', fm_filename = ''a.json''\<rparr>]),
      reupload_file = (\<lambda>f. Returned True None), finish_time = (\<lambda>f. 0),
      shutdown_at = Some 2, now = (\<lambda>n. ''t'')\<rparr>
     \<lparr>store = add_workitem init_db ''W'' ''N'' ''J'', clock = 0\<rparr>))) ''W'' ''J''
     = Some ''pending''"
  by code_simp


subsection \<open>Shutdown while the files are drained\<close>

lemma drain_before_signal:
  "shutdown_at e = Some t \<Longrightarrow> clock s + length futs \<le> t \<Longrightarrow>
   clock (snd (drain e w j futs ff s)) = clock s + length futs"
proof (induction futs arbitrary: ff s)
  case Nil
  then show ?case by simp
next
  case (Cons f futs)
  have ns: "\<not> is_set e s" using Cons.prems by (simp add: is_set_def)
  have step: "clock (snd (drain e w j futs ff'
         ((tick s)\<lparr>store := update_file_status (store s) (now e (clock s)) w j
                    (fm_filename f) x err\<rparr>))) = clock s + length (f # futs)" for x err ff'
    using Cons.IH[of "(tick s)\<lparr>store := update_file_status (store s) (now e (clock s)) w j
                    (fm_filename f) x err\<rparr>" ff'] Cons.prems by simp
  show ?case using ns
    by (cases "reupload_file e f") (simp_all add: step del: length_Cons)
qed

lemma drain_at_signal:
  "shutdown_at e = Some t \<Longrightarrow> clock s \<le> t \<Longrightarrow> t < clock s + length futs \<Longrightarrow>
   drain e w j futs ff s =
     (None, tick (set_status e w j ''pending'' (Some ''Shutdown requested mid-processing'')
                    (snd (drain e w j (take (t - clock s) futs) ff s))))"
proof (induction futs arbitrary: ff s)
  case Nil
  then show ?case by simp
next
  case (Cons f futs)
  show ?case
  proof (cases "t = clock s")
    case True
    then have "is_set e s" using Cons.prems by (simp add: is_set_def)
    then show ?thesis using True by (simp add: set_status_def tick_def)
  next
    case False
    then have lt: "clock s < t" using Cons.prems by simp
    then have ns: "\<not> is_set e s" using Cons.prems by (simp add: is_set_def)
    from lt obtain k where k: "t - clock s = Suc k" by (cases "t - clock s") auto
    have step: "drain e w j futs ff' s' =
        (None, tick (set_status e w j ''pending'' (Some ''Shutdown requested mid-processing'')
                    (snd (drain e w j (take k futs) ff' s'))))"
      if "clock s' = Suc (clock s)" for ff' s'
    proof -
      have "t - clock s' = k" using k that by simp
      then show ?thesis using Cons.IH[of s' ff'] Cons.prems lt that by simp
    qed
    show ?thesis using ns k
      by (cases "reupload_file e f") (simp_all add: step)
  qed
qed

lemma update_workitem_status_note:
  assumes "r \<in> set (workitems (update_workitem_status d ts w j s err))" "wi_match w j r"
    and "s \<noteq> ''in_progress''"
  shows "wi_status r = s \<and> wi_error_message r = err"
proof -
  let ?g = "\<lambda>r0. if wi_match w j r0 then
          (if s = ''in_progress'' then r0\<lparr>wi_status := s, wi_started_at := Some ts\<rparr>
           else if s = ''completed'' \<or> s = ''failed'' then
             r0\<lparr>wi_status := s, wi_completed_at := Some ts, wi_error_message := err\<rparr>
           else r0\<lparr>wi_status := s, wi_error_message := err\<rparr>)
        else r0"
  have eq: "workitems (update_workitem_status d ts w j s err) = map ?g (workitems d)"
    by (simp add: update_workitem_status_def)
  have "r \<in> ?g ` set (workitems d)" using assms(1) by (simp only: eq set_map)
  then obtain r0 where r: "r = ?g r0" by (rule imageE)
  show ?thesis
  proof (cases "wi_match w j r0")
    case True
    then show ?thesis using r assms(3) by simp
  next
    case False
    then have "r = r0" using r by simp
    then show ?thesis using assms(2) False by simp
  qed
qed

lemma process_workitem_dispatch:
  assumes "\<not> is_set e st" "get_workitem_status (store st) w j \<noteq> Some ''completed''"
    and "query_files_for_workitem e w j = Inr fs" "fs \<noteq> []"
    and "\<not> is_set e (set_status e w j ''in_progress'' None (tick st))"
  shows "process_workitem e w j st =
     process_files e w j (deduplicate fs) (tick (set_status e w j ''in_progress'' None (tick st)))"
  unfolding process_workitem_def Let_def using assms by simp

lemma as_completed_length [simp]: "length (as_completed e fs) = length fs"
  by (simp add: as_completed_def)

text \<open>
  Claim C6. The signal arrives at logical time \<open>t\<close>, after the two checkpoints that
  precede the dispatch (\<open>clock st + 2 \<le> t\<close>) and before the last poll of the drain loop
  (\<open>t < clock st + 2 + length to_process\<close>), where \<open>to_process\<close> are the files that the call
  has claimed. The drain loop then records the \<open>t - (clock st + 2)\<close> completions that come
  before the signal, reaching the state \<open>st_k\<close>, and sees the event at its next poll. From
  there \<^verbatim>\<open>process_workitem\<close> only rewrites the row of the work item: its status is pending
  again, its error message is the shutdown note, and the files table is the one of
  \<open>st_k\<close>, so every file recorded as completed is still completed. The call returns False,
  and the collecting loop of the scheduler, which polls the event before it reads the
  result, leaves without counting the work item: its counters are unchanged.
\<close>

theorem shutdown_during_drain:
  assumes sd: "shutdown_at e = Some t" and late: "clock st + 2 \<le> t"
    and row: "get_workitem_status (store st) w j = Some s" and nc: "s \<noteq> ''completed''"
    and q: "query_files_for_workitem e w j = Inr fs" and ne: "fs \<noteq> []"
    and cp: "claim_phase e w j (deduplicate fs)
               (tick (set_status e w j ''in_progress'' None (tick st))) = (to_process, st3)"
    and early: "t < clock st + 2 + length to_process"
    and pre: "drain e w j (take (t - (clock st + 2)) (as_completed e to_process)) [] st3 = (r, st_k)"
  shows "process_workitem e w j st =
           (False, tick (set_status e w j ''pending''
                          (Some ''Shutdown requested mid-processing'') st_k)) \<and>
         get_workitem_status (store (snd (process_workitem e w j st))) w j = Some ''pending'' \<and>
         (\<forall>x\<in>set (workitems (store (snd (process_workitem e w j st)))).
            wi_match w j x \<longrightarrow> wi_error_message x = Some ''Shutdown requested mid-processing'') \<and>
         files (store (snd (process_workitem e w j st))) = files (store st_k) \<and>
         collect e ((w, j) # rest) c st = (c, tick (snd (process_workitem e w j st)))"
proof -
  let ?st1 = "set_status e w j ''in_progress'' None (tick st)"
  let ?note = "Some ''Shutdown requested mid-processing''"
  let ?fin = "tick (set_status e w j ''pending'' ?note st_k)"
  have n0: "\<not> is_set e st" using sd late by (simp add: is_set_def)
  have n1: "\<not> is_set e ?st1" using sd late by (simp add: is_set_def)
  have nc': "get_workitem_status (store st) w j \<noteq> Some ''completed''" using row nc by simp
  have pw: "process_workitem e w j st = process_files e w j (deduplicate fs) (tick ?st1)"
    by (rule process_workitem_dispatch[OF n0 nc' q ne n1])
  have c3: "clock st3 = clock st + 2"
    using claim_phase_clock[of e w j "deduplicate fs" "tick ?st1"] cp by simp
  have tp: "to_process \<noteq> []" using early late by auto
  have k: "t - (clock st + 2) = t - clock st3" using c3 by simp
  have dr: "drain e w j (as_completed e to_process) [] st3 = (None, ?fin)"
    using drain_at_signal[OF sd, of st3 "as_completed e to_process" w j "[]"] late early c3 pre k
    by simp
  have res: "process_workitem e w j st = (False, ?fin)"
    unfolding pw process_files_def using cp tp dr by simp
  have f1: "wi_frame w j (workitems (store st)) (workitems (store (tick ?st1)))"
    using set_status_frame[of w j "tick st" e "''in_progress''" None] by simp
  have f2: "wi_frame w j (workitems (store (tick ?st1))) (workitems (store st3))"
    using claim_phase_frame[of w j "tick ?st1" e "deduplicate fs"] cp by simp
  have f3: "wi_frame w j (workitems (store st3)) (workitems (store st_k))"
    using drain_frame[of w j st3 e "take (t - (clock st + 2)) (as_completed e to_process)" "[]"]
      pre by simp
  have fr: "wi_frame w j (workitems (store st)) (workitems (store st_k))"
    by (rule wi_frame_trans[OF wi_frame_trans[OF f1 f2] f3])
  have ex: "get_workitem_status (store st_k) w j \<noteq> None"
    using wi_frame_status_exists[OF fr, of w j] row by simp
  have st: "get_workitem_status (store ?fin) w j = Some ''pending''"
    using ex by (auto simp: set_status_get)
  have msg: "wi_error_message x = ?note"
    if "x \<in> set (workitems (store ?fin))" "wi_match w j x" for x
  proof -
    have "x \<in> set (workitems (update_workitem_status (store st_k) (now e (clock st_k)) w j
                      ''pending'' ?note))"
      using that(1) by (simp add: set_status_def)
    from update_workitem_status_note[OF this that(2)] show ?thesis by simp
  qed
  have ck: "clock st_k = t"
  proof -
    have "clock st3 + length (take (t - clock st3) (as_completed e to_process)) \<le> t"
      using c3 late by simp
    from drain_before_signal[OF sd this, of w j "[]"] pre k c3 late early show ?thesis by simp
  qed
  have seen: "is_set e ?fin" using sd ck by (simp add: is_set_def)
  have col: "collect e ((w, j) # rest) c st = (c, tick ?fin)"
    using res seen by simp
  show ?thesis
    unfolding res using st msg col by simp
qed

theorem shutdown_during_drain_witness:
  "fst (process_workitem
     \<lparr>query_files_for_workitem = (\<lambda>w j. Inr
         [\<lparr>fm_job_id = ''J'', fm_workitem_id = ''W'', fm_workitem_name = ''N'',
           fm_source_uri = ''u'', fm_filename = ''a.json''\<rparr>,
          \<lparr>fm_job_id = ''J'', fm_workitem_id = ''W'', fm_workitem_name = ''N'',
           fm_source_uri = ''u'', fm_filename = ''b.json''\<rparr>]),
      reupload_file = (\<lambda>f. Returned True None), finish_time = (\<lambda>f. 0),
      shutdown_at = Some 3, now = (\<lambda>n. ''t'')\<rparr> ''W'' ''J''
     \<lparr>store = add_workitem init_db ''W'' ''N'' ''J'', clock = 0\<rparr>) = False \<and>
   get_workitem_status (store (snd (process_workitem
     \<lparr>query_files_for_workitem = (\<lambda>w j. Inr
         [\<lparr>fm_job_id = ''J'', fm_workitem_id = ''W'', fm_workitem_name = ''N'',
           fm_source_uri = ''u'', fm_filename = ''a.json''\<rparr>,
          \<lparr>fm_job_id = ''J'', fm_workitem_id = ''W'', fm_workitem_name = ''N'',
           fm_source_uri = ''u'', fm_filename = ''b.json''\<rparr>]),
      reupload_file = (\<lambda>f. Returned True None), finish_time = (\<lambda>f. 0),
      shutdown_at = Some 3, now = (\<lambda>n. ''t'')\<rparr> ''W'' ''J''
     \<lparr>store = add_workitem init_db ''W'' ''N'' ''J'', clock = 0\<rparr>))) ''W'' ''J''
     = Some ''pending'' \<and>
   map wi_error_message (workitems (store (snd (process_workitem
     \<lparr>query_files_for_workitem = (\<lambda>w j. Inr
         [\<lparr>fm_job_id = ''J'', fm_workitem_id = ''W'', fm_workitem_name = ''N'',
           fm_source_uri = ''u'', fm_filename = ''a.json''\<rparr>,
          \<lparr>fm_job_id = ''J'', fm_workitem_id = ''W'', fm_workitem_name = ''N'',
           fm_source_uri = ''u'', fm_filename = ''b.json''\<rparr>]),
      reupload_file = (\<lambda>f. Returned True None), finish_time = (\<lambda>f. 0),
      shutdown_at = Some 3, now = (\<lambda>n. ''t'')\<rparr> ''W'' ''J''
     \<lparr>store = add_workitem init_db ''W'' ''N'' ''J'', clock = 0\<rparr>))))
     = [Some ''Shutdown requested mid-processing''] \<and>
   map f_status (files (store (snd (process_workitem
     \<lparr>query_files_for_workitem = (\<lambda>w j. Inr
         [\<lparr>fm_job_id = ''J'', fm_workitem_id = ''W'', fm_workitem_name = ''N'',
           fm_source_uri = ''u'', fm_filename = ''a.json''\<rparr>,
          \<lparr>fm_job_id = ''J'', fm_workitem_id = ''W'', fm_workitem_name = ''N'',
           fm_source_uri = ''u'', fm_filename = ''b.json''\<rparr>]),
      reupload_file = (\<lambda>f. Returned True None), finish_time = (\<lambda>f. 0),
      shutdown_at = Some 3, now = (\<lambda>n. ''t'')\<rparr> ''W'' ''J''
     \<lparr>store = add_workitem init_db ''W'' ''N'' ''J'', clock = 0\<rparr>))))
     = [''completed'', ''in_progress''] \<and>
   fst (collect
     \<lparr>query_files_for_workitem = (\<lambda>w j. Inr
         [\<lparr>fm_job_id = ''J'', fm_workitem_id = ''W'', fm_workitem_name = ''N'',
           fm_source_uri = ''u'', fm_filename = ''a.json''\<rparr>,
          \<lparr>fm_job_id = ''J'', fm_workitem_id = ''W'', fm_workitem_name = ''N'',
           fm_source_uri = ''u'', fm_filename = ''b.json''\<rparr>]),
      reupload_file = (\<lambda>f. Returned True None), finish_time = (\<lambda>f. 0),
      shutdown_at = Some 3, now = (\<lambda>n. ''t'')\<rparr> [(''W'', ''J'')]
     \<lparr>completed = 0, failed = 0, skipped = 0\<rparr>
     \<lparr>store = add_workitem init_db ''W'' ''N'' ''J'', clock = 0\<rparr>)
     = \<lparr>completed = 0, failed = 0, skipped = 0\<rparr>"
proof -
  let ?fs = "[\<lparr>fm_job_id = ''J'', fm_workitem_id = ''W'', fm_workitem_name = ''N'',
           fm_source_uri = ''u'', fm_filename = ''a.json''\<rparr>,
          \<lparr>fm_job_id = ''J'', fm_workitem_id = ''W'', fm_workitem_name = ''N'',
           fm_source_uri = ''u'', fm_filename = ''b.json''\<rparr>]"
  let ?e = "\<lparr>query_files_for_workitem = (\<lambda>w j. Inr ?fs),
      reupload_file = (\<lambda>f. Returned True None), finish_time = (\<lambda>f. 0),
      shutdown_at = Some 3, now = (\<lambda>n. ''t'')\<rparr>"
  let ?st = "\<lparr>store = add_workitem init_db ''W'' ''N'' ''J'', clock = 0\<rparr>"
  let ?cp = "claim_phase ?e ''W'' ''J'' (deduplicate ?fs)
               (tick (set_status ?e ''W'' ''J'' ''in_progress'' None (tick ?st)))"
  let ?dr = "drain ?e ''W'' ''J'' (take (3 - (clock ?st + 2)) (as_completed ?e (fst ?cp))) []
               (snd ?cp)"
  have sd: "shutdown_at ?e = Some 3" by simp
  have late: "clock ?st + 2 \<le> 3" by simp
  have row: "get_workitem_status (store ?st) ''W'' ''J'' = Some ''pending''"
    by (simp add: get_workitem_status_def add_workitem_def init_db_def wi_match_def)
  have nc: "''pending'' \<noteq> ''completed''" by simp
  have q: "query_files_for_workitem ?e ''W'' ''J'' = Inr ?fs" by simp
  have ne: "?fs \<noteq> []" by simp
  have cp: "?cp = (fst ?cp, snd ?cp)" by simp
  have len: "length (fst ?cp) = 2" by code_simp
  have early: "3 < clock ?st + 2 + length (fst ?cp)" unfolding len by simp
  have pre: "?dr = (fst ?dr, snd ?dr)" by simp
  note t = shutdown_during_drain[OF sd late row nc q ne cp early pre,
      of "[]" "\<lparr>completed = 0, failed = 0, skipped = 0\<rparr>"]
  have a: "fst (process_workitem ?e ''W'' ''J'' ?st) = False"
    using t[THEN conjunct1] by simp
  note b = t[THEN conjunct2, THEN conjunct1]
  have c: "fst (collect ?e [(''W'', ''J'')] \<lparr>completed = 0, failed = 0, skipped = 0\<rparr> ?st)
             = \<lparr>completed = 0, failed = 0, skipped = 0\<rparr>"
    using t[THEN conjunct2, THEN conjunct2, THEN conjunct2, THEN conjunct2] by simp
  have d: "map wi_error_message (workitems (store (snd (process_workitem ?e ''W'' ''J'' ?st))))
             = [Some ''Shutdown requested mid-processing'']"
    by code_simp
  have f: "map f_status (files (store (snd (process_workitem ?e ''W'' ''J'' ?st))))
             = [''completed'', ''in_progress'']"
    by code_simp
  show ?thesis
    apply (intro conjI)
        apply (rule a)
       apply (rule b)
      apply (rule d)
     apply (rule f)
    apply (rule c)
    done
qed


section \<open>Counters of a completed work item\<close>

subsection \<open>De-duplication\<close>

lemma dedup_loop_keys:
  "distinct (map fst acc) \<Longrightarrow> \<forall>p\<in>set acc. fst p = basename (fm_filename (snd p)) \<Longrightarrow>
   distinct (map fst (dedup_loop fs acc)) \<and>
   (\<forall>p\<in>set (dedup_loop fs acc). fst p = basename (fm_filename (snd p)))"
proof (induction fs arbitrary: acc)
  case Nil
  then show ?case by simp
next
  case (Cons f fs)
  show ?case
  proof (cases "basename (fm_filename f) \<in> set (map fst acc)")
    case True
    then show ?thesis using Cons.IH[OF Cons.prems] by (simp add: Let_def)
  next
    case False
    have d: "distinct (map fst (acc @ [(basename (fm_filename f), f)]))"
      using Cons.prems(1) False by simp
    have k: "\<forall>p\<in>set (acc @ [(basename (fm_filename f), f)]). fst p = basename (fm_filename (snd p))"
      using Cons.prems(2) by simp
    show ?thesis using Cons.IH[OF d k] False by (simp add: Let_def)
  qed
qed

lemma distinct_map_outer: "distinct (map (\<lambda>x. g (f x)) xs) \<Longrightarrow> distinct (map f xs)"
  by (induction xs) auto

lemma deduplicate_distinct: "distinct (map fm_filename (deduplicate fs))"
proof -
  have a: "distinct (map fst (dedup_loop fs []))"
    and b: "\<forall>p\<in>set (dedup_loop fs []). fst p = basename (fm_filename (snd p))"
    using dedup_loop_keys[of "[]" fs] by simp_all
  have eq: "map (\<lambda>p. basename (fm_filename (snd p))) (dedup_loop fs []) =
            map fst (dedup_loop fs [])"
  proof (rule map_cong[OF refl])
    fix p assume "p \<in> set (dedup_loop fs [])"
    from b[rule_format, OF this] show "basename (fm_filename (snd p)) = fst p" by (rule sym)
  qed
  have "distinct (map (\<lambda>p. basename (fm_filename (snd p))) (dedup_loop fs []))"
    unfolding eq by (rule a)
  then have "distinct (map (\<lambda>x. basename (fm_filename x)) (map snd (dedup_loop fs [])))"
    by (simp add: comp_def)
  then show ?thesis unfolding deduplicate_def by (rule distinct_map_outer)
qed

subsection \<open>Reading a file status\<close>

lemma find_append:
  "find P (xs @ ys) = (case find P xs of None \<Rightarrow> find P ys | Some x \<Rightarrow> Some x)"
  by (induction xs) auto

lemma get_file_status_row:
  assumes pk: "distinct (map f_key (files d))" and mem: "x \<in> set (files d)"
    and m: "f_match w j f x"
  shows "get_file_status d w j f = Some (f_status x)"
proof -
  have "find (f_match w j f) (files d) \<noteq> None"
    using mem m by (auto simp: find_None_iff)
  then obtain s where s: "get_file_status d w j f = Some s"
    by (auto simp: get_file_status_def)
  from get_file_status_rows[OF pk s] obtain r where
    r: "f_status r = s" "filter (f_match w j f) (files d) = [r]" by blast
  have "x \<in> set (filter (f_match w j f) (files d))" using mem m by simp
  then have "x = r" using r(2) by simp
  then show ?thesis using s r(1) by simp
qed

lemma get_file_status_files:
  "files d' = files d \<Longrightarrow> get_file_status d' w j f = get_file_status d w j f"
  by (simp add: get_file_status_def)

lemma add_file_keys:
  "distinct (map f_key (files d)) \<Longrightarrow> distinct (map f_key (files (add_file d w j f u)))"
proof -
  assume pk: "distinct (map f_key (files d))"
  show ?thesis
  proof (cases "list_ex (f_match w j f) (files d)")
    case True
    then show ?thesis using pk by (simp add: add_file_def)
  next
    case False
    then have "(w, j, f) \<notin> set (map f_key (files d))"
      by (auto simp: list_ex_iff f_match_key)
    then show ?thesis using pk False by (simp add: add_file_def f_key_def)
  qed
qed

lemma add_file_status:
  "get_file_status (add_file d w j f u) w' j' f' =
     (if w' = w \<and> j' = j \<and> f' = f \<and> get_file_status d w j f = None then Some ''pending''
      else get_file_status d w' j' f')"
proof (cases "list_ex (f_match w j f) (files d)")
  case True
  then have "find (f_match w j f) (files d) \<noteq> None"
    by (auto simp: list_ex_iff find_None_iff)
  then show ?thesis using True by (simp add: add_file_def get_file_status_def)
next
  case False
  then have n: "find (f_match w j f) (files d) = None"
    by (auto simp: list_ex_iff find_None_iff)
  show ?thesis
  proof (cases "w' = w \<and> j' = j \<and> f' = f")
    case True
    then show ?thesis using False n
      by (simp add: add_file_def get_file_status_def find_append f_match_def)
  next
    case ne: False
    then show ?thesis using False
      by (auto simp: add_file_def get_file_status_def find_append f_match_def
          split: option.splits)
  qed
qed

subsection \<open>The claim loop\<close>

lemma claim_files_result:
  assumes "distinct (map fm_filename fs)" "distinct (map f_key (files (store st)))"
    and "\<forall>f\<in>set fs. get_file_status (store st) w j (fm_filename f) = None \<or>
           get_file_status (store st) w j (fm_filename f) = Some ''pending'' \<or>
           get_file_status (store st) w j (fm_filename f) = Some ''failed'' \<or>
           get_file_status (store st) w j (fm_filename f) = Some ''completed''"
  shows "fst (claim_files e w j fs acc st) =
           acc @ filter (\<lambda>f. get_file_status (store st) w j (fm_filename f) \<noteq> Some ''completed'') fs"
  using assms
proof (induction fs arbitrary: acc st)
  case Nil
  then show ?case by simp
next
  case (Cons f fs)
  let ?fn = "fm_filename f"
  let ?d1 = "add_file (store st) w j ?fn (fm_source_uri f)"
  have pk1: "distinct (map f_key (files ?d1))" by (rule add_file_keys[OF Cons.prems(2)])
  have dfs: "distinct (map fm_filename fs)" using Cons.prems(1) by simp
  have other: "fm_filename g \<noteq> ?fn" if "g \<in> set fs" for g
  proof
    assume "fm_filename g = ?fn"
    then have "?fn \<in> fm_filename ` set fs" using that by (metis imageI)
    then show False using Cons.prems(1) by simp
  qed
  have st1: "get_file_status ?d1 w j (fm_filename g) = get_file_status (store st) w j (fm_filename g)"
    if "g \<in> set fs" for g
    using other[OF that] by (simp add: add_file_status)
  have hd: "get_file_status (store st) w j ?fn = None \<or>
           get_file_status (store st) w j ?fn = Some ''pending'' \<or>
           get_file_status (store st) w j ?fn = Some ''failed'' \<or>
           get_file_status (store st) w j ?fn = Some ''completed''"
    using Cons.prems(3) by simp
  show ?case
  proof (cases "get_file_status (store st) w j ?fn = Some ''completed''")
    case True
    then have c1: "get_file_status ?d1 w j ?fn = Some ''completed''"
      by (simp add: add_file_status)
    have h3: "\<forall>g\<in>set fs. get_file_status (store (st\<lparr>store := ?d1\<rparr>)) w j (fm_filename g) = None \<or>
           get_file_status (store (st\<lparr>store := ?d1\<rparr>)) w j (fm_filename g) = Some ''pending'' \<or>
           get_file_status (store (st\<lparr>store := ?d1\<rparr>)) w j (fm_filename g) = Some ''failed'' \<or>
           get_file_status (store (st\<lparr>store := ?d1\<rparr>)) w j (fm_filename g) = Some ''completed''"
      using Cons.prems(3) st1 by simp
    have pk: "distinct (map f_key (files (store (st\<lparr>store := ?d1\<rparr>))))" using pk1 by simp
    have flt: "filter (\<lambda>g. get_file_status ?d1 w j (fm_filename g) \<noteq> Some ''completed'') fs =
               filter (\<lambda>g. get_file_status (store st) w j (fm_filename g) \<noteq> Some ''completed'') fs"
      by (rule filter_cong[OF refl]) (simp add: st1)
    show ?thesis
      using Cons.IH[OF dfs pk h3, of acc] c1 True flt by (simp add: Let_def)
  next
    case False
    then have c1: "get_file_status ?d1 w j ?fn = Some ''pending'' \<or>
                   get_file_status ?d1 w j ?fn = Some ''failed''"
      using hd by (auto simp: add_file_status)
    then have nc1: "get_file_status ?d1 w j ?fn \<noteq> Some ''completed''" by auto
    from c1 obtain s where s: "get_file_status ?d1 w j ?fn = Some s" "s = ''pending'' \<or> s = ''failed''"
      by auto
    let ?cl = "claim_file ?d1 (now e (clock st)) w j ?fn"
    have ok: "fst ?cl" by (rule claim_file_claimable[OF pk1 s])
    let ?d2 = "snd ?cl"
    have pk2: "distinct (map f_key (files (store (st\<lparr>store := ?d2\<rparr>))))"
      using pk1 by (simp add: claim_file_files_key)
    have st2: "get_file_status ?d2 w j (fm_filename g) = get_file_status (store st) w j (fm_filename g)"
      if "g \<in> set fs" for g
      using other[OF that] st1[OF that] by (simp add: claim_file_status)
    have h3: "\<forall>g\<in>set fs. get_file_status (store (st\<lparr>store := ?d2\<rparr>)) w j (fm_filename g) = None \<or>
           get_file_status (store (st\<lparr>store := ?d2\<rparr>)) w j (fm_filename g) = Some ''pending'' \<or>
           get_file_status (store (st\<lparr>store := ?d2\<rparr>)) w j (fm_filename g) = Some ''failed'' \<or>
           get_file_status (store (st\<lparr>store := ?d2\<rparr>)) w j (fm_filename g) = Some ''completed''"
      using Cons.prems(3) st2 by simp
    have flt: "filter (\<lambda>g. get_file_status ?d2 w j (fm_filename g) \<noteq> Some ''completed'') fs =
               filter (\<lambda>g. get_file_status (store st) w j (fm_filename g) \<noteq> Some ''completed'') fs"
      by (rule filter_cong[OF refl]) (simp add: st2)
    have step: "claim_files e w j (f # fs) acc st = claim_files e w j fs (acc @ [f]) (st\<lparr>store := ?d2\<rparr>)"
      using nc1 ok by (simp add: Let_def split_def)
    show ?thesis
      unfolding step using Cons.IH[OF dfs pk2 h3, of "acc @ [f]"] False flt by simp
  qed
qed

subsection \<open>Counting the completed files\<close>

lemma completed_files_count:
  assumes pk: "distinct (map f_key (files d))" and du: "distinct (map fm_filename us)"
    and known: "\<forall>x\<in>set (completed_files d w j). f_filename x \<in> fm_filename ` set us"
  shows "length (completed_files d w j) =
         length (filter (\<lambda>f. get_file_status d w j (fm_filename f) = Some ''completed'') us)"
proof -
  let ?C = "completed_files d w j"
  let ?V = "filter (\<lambda>f. get_file_status d w j (fm_filename f) = Some ''completed'') us"
  have inC: "x \<in> set ?C \<longleftrightarrow> x \<in> set (files d) \<and> f_workitem_id x = w \<and> f_job_id x = j \<and>
      f_status x = ''completed''" for x
    by (auto simp: completed_files_def)
  have dk: "distinct (map f_key ?C)"
    unfolding completed_files_def by (rule distinct_map_filter[OF pk])
  have keyC: "map f_key ?C = map (\<lambda>x. (w, j, f_filename x)) ?C"
    by (rule map_cong[OF refl]) (simp add: inC f_key_def)
  have dC: "distinct (map f_filename ?C)"
    using dk unfolding keyC by (rule distinct_map_outer[of "\<lambda>n. (w, j, n)"])
  have dV: "distinct (map fm_filename ?V)" by (rule distinct_map_filter[OF du])
  have sub1: "f_filename x \<in> set (map fm_filename ?V)" if x: "x \<in> set ?C" for x
  proof -
    from known x obtain f where f: "f \<in> set us" "f_filename x = fm_filename f" by auto
    have m: "f_match w j (fm_filename f) x" using x f(2) by (simp add: inC f_match_def)
    have "get_file_status d w j (fm_filename f) = Some (f_status x)"
      by (rule get_file_status_row[OF pk _ m]) (use x in \<open>simp add: inC\<close>)
    then have "f \<in> set ?V" using f(1) x by (simp add: inC)
    then show ?thesis using f(2) by auto
  qed
  have sub2: "fm_filename f \<in> set (map f_filename ?C)" if f: "f \<in> set ?V" for f
  proof -
    from f have s: "get_file_status d w j (fm_filename f) = Some ''completed''" by simp
    then obtain x where x: "find (f_match w j (fm_filename f)) (files d) = Some x"
      "f_status x = ''completed''"
      by (auto simp: get_file_status_def)
    from find_Some_mem[OF x(1)] have "x \<in> set (files d)" "f_match w j (fm_filename f) x"
      by simp_all
    then have "x \<in> set ?C" "f_filename x = fm_filename f"
      using x(2) by (simp_all add: inC f_match_def)
    then show ?thesis by force
  qed
  have "set (map f_filename ?C) = set (map fm_filename ?V)"
    using sub1 sub2 by auto
  then have "card (set (map f_filename ?C)) = card (set (map fm_filename ?V))" by simp
  then have "length (map f_filename ?C) = length (map fm_filename ?V)"
    using distinct_card[OF dC] distinct_card[OF dV] by simp
  then show ?thesis by simp
qed

subsection \<open>What a call does to the rows of its work item\<close>

lemma wi_change_map:
  "(\<And>r. wi_key (g r) = wi_key r) \<Longrightarrow> (\<And>r. wi_match w j r \<Longrightarrow> Q r (g r)) \<Longrightarrow>
   (\<And>r. \<not> wi_match w j r \<Longrightarrow> g r = r) \<Longrightarrow> wi_change w j Q ws (map g ws)"
  unfolding wi_change_def by (auto simp: list_all2_map2 list_all2_same)

lemma wi_change_refl: "(\<And>r. Q r r) \<Longrightarrow> wi_change w j Q ws ws"
  unfolding wi_change_def by (auto simp: list_all2_same)

lemma wi_change_trans:
  assumes a: "wi_change w j Q1 ws ws'" and b: "wi_change w j Q2 ws' ws''"
    and c: "\<And>r r' r''. Q1 r r' \<Longrightarrow> Q2 r' r'' \<Longrightarrow> Q3 r r''"
  shows "wi_change w j Q3 ws ws''"
  unfolding wi_change_def
proof (rule list_all2_trans[OF _ a[unfolded wi_change_def] b[unfolded wi_change_def]])
  fix r r' r''
  assume 1: "wi_key r' = wi_key r \<and> (if wi_match w j r then Q1 r r' else r' = r)"
    and 2: "wi_key r'' = wi_key r' \<and> (if wi_match w j r' then Q2 r' r'' else r'' = r')"
  have m: "wi_match w j r' = wi_match w j r" using 1 by (simp add: wi_match_key)
  show "wi_key r'' = wi_key r \<and> (if wi_match w j r then Q3 r r'' else r'' = r)"
    using 1 2 m c by (cases "wi_match w j r") auto
qed

lemma wi_change_rows:
  assumes "wi_change w j Q ws ws'" "r' \<in> set ws'" "wi_match w j r'"
  shows "\<exists>r\<in>set ws. wi_match w j r \<and> Q r r'"
proof -
  note la = assms(1)[unfolded wi_change_def]
  from assms(2) obtain i where i: "i < length ws'" "ws' ! i = r'"
    by (auto simp: in_set_conv_nth)
  have len: "length ws = length ws'" by (rule list_all2_lengthD[OF la])
  have r: "wi_key r' = wi_key (ws ! i) \<and>
           (if wi_match w j (ws ! i) then Q (ws ! i) r' else r' = ws ! i)"
    using list_all2_nthD2[OF la i(1)] unfolding i(2) by (simp split: if_splits)
  have m: "wi_match w j (ws ! i)" using r assms(3) by (simp add: wi_match_key)
  have "ws ! i \<in> set ws" using i(1) len by simp
  then show ?thesis using r m by auto
qed

lemma set_status_change:
  "wi_change w j (\<lambda>r r'. wi_status r' = s \<and> wi_files_total r' = wi_files_total r \<and>
                          wi_files_processed r' = wi_files_processed r)
     (workitems (store st)) (workitems (store (set_status e w j s err st)))"
  unfolding set_status_def update_workitem_status_def
  by (simp, rule wi_change_map) (auto simp: wi_key_def)

lemma file_count_change:
  "wi_change w j (\<lambda>r r'. wi_files_total r' = n \<and> wi_files_processed r' = wi_files_processed r)
     (workitems d) (workitems (update_workitem_file_count d w j n))"
  unfolding update_workitem_file_count_def
  by (simp, rule wi_change_map) (auto simp: wi_key_def)

lemma file_completed_change:
  "wi_change w j (\<lambda>r r'. wi_files_total r' = wi_files_total r \<and>
                          wi_files_processed r' = wi_files_processed r + 1)
     (workitems d) (workitems (update_file_status d ts w j f ''completed'' err))"
  unfolding update_file_status_def Let_def
  by (simp, rule wi_change_map) (auto simp: wi_key_def)

lemma drain_failed_grows:
  "drain e w j futs ff st = (Some ff', st') \<Longrightarrow> length ff \<le> length ff'"
proof (induction futs arbitrary: ff st)
  case Nil
  then show ?case by simp
next
  case (Cons f futs)
  have ns: "\<not> is_set e st" using Cons.prems by (auto split: if_splits)
  show ?case
  proof (cases "reupload_file e f")
    case (Returned success msg)
    show ?thesis
    proof (cases success)
      case True
      then show ?thesis using Cons.prems ns Returned Cons.IH by simp
    next
      case False
      then have "length (ff @ [fm_filename f]) \<le> length ff'"
        using Cons.prems ns Returned Cons.IH[of "ff @ [fm_filename f]"] by simp
      then show ?thesis by simp
    qed
  next
    case (Raised msg)
    then have "length (ff @ [fm_filename f]) \<le> length ff'"
      using Cons.prems ns Cons.IH[of "ff @ [fm_filename f]"] by simp
    then show ?thesis by simp
  qed
qed

lemma drain_all_succeeded:
  "drain e w j futs ff st = (Some [], st') \<Longrightarrow>
   wi_change w j (\<lambda>r r'. wi_files_total r' = wi_files_total r \<and>
                          wi_files_processed r' = wi_files_processed r + int (length futs))
     (workitems (store st)) (workitems (store st'))"
proof (induction futs arbitrary: ff st)
  case Nil
  then show ?case by (auto intro: wi_change_refl)
next
  case (Cons f futs)
  have ns: "\<not> is_set e st" using Cons.prems by (auto split: if_splits)
  have bad: False if "drain e w j futs (ff @ [fm_filename f]) s1 = (Some [], st')" for s1
    using drain_failed_grows[OF that] by simp
  let ?s1 = "(tick st)\<lparr>store := update_file_status (store st) (now e (clock st)) w j
                    (fm_filename f) ''completed'' None\<rparr>"
  have good: ?case if d: "drain e w j futs ff ?s1 = (Some [], st')"
  proof -
    have a: "wi_change w j (\<lambda>r r'. wi_files_total r' = wi_files_total r \<and>
                          wi_files_processed r' = wi_files_processed r + 1)
        (workitems (store st)) (workitems (store ?s1))"
      using file_completed_change[of w j "store st" "now e (clock st)" "fm_filename f" None]
      by simp
    show ?thesis
      by (rule wi_change_trans[OF a Cons.IH[OF d]]) simp
  qed
  show ?case
  proof (cases "reupload_file e f")
    case (Returned success msg)
    show ?thesis
    proof (cases success)
      case True
      then show ?thesis using Cons.prems ns Returned good by simp
    next
      case False
      then show ?thesis using Cons.prems ns Returned by (auto dest: bad)
    qed
  next
    case (Raised msg)
    then show ?thesis using Cons.prems ns by (auto dest: bad)
  qed
qed

lemma process_files_True_counts:
  assumes "process_files e w j fs st = (True, st')"
  shows "wi_change w j (\<lambda>r r'. wi_status r' = ''completed'' \<and> wi_files_total r' = int (length fs) \<and>
            wi_files_processed r' =
              wi_files_processed r + int (length (fst (claim_phase e w j fs st))))
          (workitems (store st)) (workitems (store st'))"
proof -
  obtain tp st1 where cp: "claim_phase e w j fs st = (tp, st1)" by (cases "claim_phase e w j fs st")
  have w1: "workitems (store st1) =
      workitems (update_workitem_file_count (store st) w j (int (length fs)))"
    using claim_files_workitems[of e w j fs "[]"
        "st\<lparr>store := update_workitem_file_count (store st) w j (int (length fs))\<rparr>"] cp
    by (simp add: claim_phase_def)
  have c1: "wi_change w j (\<lambda>r r'. wi_files_total r' = int (length fs) \<and>
              wi_files_processed r' = wi_files_processed r)
        (workitems (store st)) (workitems (store st1))"
    unfolding w1 by (rule file_count_change)
  show ?thesis
  proof (cases "tp = []")
    case True
    then have st': "st' = set_status e w j ''completed'' None st1"
      using assms cp by (simp add: process_files_def)
    show ?thesis
      unfolding st' cp
      by (rule wi_change_trans[OF c1 set_status_change]) (simp add: True)
  next
    case False
    obtain r st2 where dr: "drain e w j (as_completed e tp) [] st1 = (r, st2)"
      by (cases "drain e w j (as_completed e tp) [] st1")
    have r: "r = Some []" and st': "st' = set_status e w j ''completed'' None st2"
      using assms cp dr False by (cases r; simp add: process_files_def split: if_splits)+
    have c2: "wi_change w j (\<lambda>r r'. wi_files_total r' = wi_files_total r \<and>
                wi_files_processed r' = wi_files_processed r + int (length tp))
          (workitems (store st1)) (workitems (store st2))"
      using drain_all_succeeded[OF dr[unfolded r]] by simp
    have c12: "wi_change w j (\<lambda>r r'. wi_files_total r' = int (length fs) \<and>
                wi_files_processed r' = wi_files_processed r + int (length tp))
          (workitems (store st)) (workitems (store st2))"
      by (rule wi_change_trans[OF c1 c2]) simp
    show ?thesis
      unfolding st' cp
      by (rule wi_change_trans[OF c12 set_status_change]) simp
  qed
qed

text \<open>
  Claim C2, as amended. Take a call of \<^verbatim>\<open>process_workitem\<close> that returns True on a work
  item that was not completed before, with a non-empty resolved list. Suppose that at the
  start of the call the files table satisfies its primary key, every resolved file (after
  de-duplication) has no row yet or a row that is pending, failed or completed (none is
  in_progress, that is, held by another claimant or left behind by an interrupted run),
  \<^verbatim>\<open>files_processed\<close> of the work item is the number of its completed file rows, and
  every completed file row of the work item is among the resolved files. Then after the
  call the work item is completed, \<^verbatim>\<open>files_total\<close> is the number of resolved files after
  de-duplication, and \<^verbatim>\<open>files_processed\<close> equals \<^verbatim>\<open>files_total\<close>. This covers the early
  path, on which no file is claimed.
\<close>

theorem completed_means_all_processed:
  assumes ok: "process_workitem e w j st = (True, st')"
    and nc: "get_workitem_status (store st) w j \<noteq> Some ''completed''"
    and q: "query_files_for_workitem e w j = Inr fs" and ne: "fs \<noteq> []"
    and pk: "primary_keys (store st)"
    and free: "\<forall>f\<in>set (deduplicate fs).
        get_file_status (store st) w j (fm_filename f) = None \<or>
        get_file_status (store st) w j (fm_filename f) = Some ''pending'' \<or>
        get_file_status (store st) w j (fm_filename f) = Some ''failed'' \<or>
        get_file_status (store st) w j (fm_filename f) = Some ''completed''"
    and cnt: "\<forall>r\<in>set (workitems (store st)). wi_match w j r \<longrightarrow>
        wi_files_processed r = int (length (completed_files (store st) w j))"
    and known: "\<forall>x\<in>set (completed_files (store st) w j).
        f_filename x \<in> fm_filename ` set (deduplicate fs)"
  shows "\<forall>r\<in>set (workitems (store st')). wi_match w j r \<longrightarrow>
           wi_status r = ''completed'' \<and>
           wi_files_total r = int (length (deduplicate fs)) \<and>
           wi_files_processed r = wi_files_total r"
proof (intro ballI impI)
  fix r' assume mem: "r' \<in> set (workitems (store st'))" and m: "wi_match w j r'"
  let ?us = "deduplicate fs"
  let ?st1 = "set_status e w j ''in_progress'' None (tick st)"
  let ?st2 = "tick ?st1"
  have n0: "\<not> is_set e st" using ok by (auto simp: process_workitem_def)
  have n1: "\<not> is_set e ?st1"
    using ok n0 nc q ne by (auto simp: process_workitem_def Let_def)
  have pw: "process_workitem e w j st = process_files e w j ?us ?st2"
    by (rule process_workitem_dispatch[OF n0 nc q ne n1])
  have pf: "process_files e w j ?us ?st2 = (True, st')" using ok pw by simp
  have fl2: "files (store ?st2) = files (store st)" by simp
  let ?st2' = "?st2\<lparr>store := update_workitem_file_count (store ?st2) w j (int (length ?us))\<rparr>"
  have fl2': "files (store ?st2') = files (store st)" by simp
  have pkf: "distinct (map f_key (files (store ?st2')))"
    using pk unfolding fl2' by (simp add: primary_keys_def)
  have free': "\<forall>f\<in>set ?us.
        get_file_status (store ?st2') w j (fm_filename f) = None \<or>
        get_file_status (store ?st2') w j (fm_filename f) = Some ''pending'' \<or>
        get_file_status (store ?st2') w j (fm_filename f) = Some ''failed'' \<or>
        get_file_status (store ?st2') w j (fm_filename f) = Some ''completed''"
    using free unfolding get_file_status_files[OF fl2'] .
  have tp: "fst (claim_phase e w j ?us ?st2) =
      filter (\<lambda>f. get_file_status (store st) w j (fm_filename f) \<noteq> Some ''completed'') ?us"
    unfolding claim_phase_def
    using claim_files_result[OF deduplicate_distinct pkf free', of e "[]"]
    unfolding get_file_status_files[OF fl2'] by simp
  have c0: "wi_change w j (\<lambda>r r'. wi_status r' = ''in_progress'' \<and>
              wi_files_total r' = wi_files_total r \<and> wi_files_processed r' = wi_files_processed r)
        (workitems (store st)) (workitems (store ?st2))"
    using set_status_change[of w j "''in_progress''" "tick st" e None] by simp
  have ch: "wi_change w j (\<lambda>r r'. wi_status r' = ''completed'' \<and>
              wi_files_total r' = int (length ?us) \<and>
              wi_files_processed r' =
                wi_files_processed r + int (length (fst (claim_phase e w j ?us ?st2))))
        (workitems (store st)) (workitems (store st'))"
    by (rule wi_change_trans[OF c0 process_files_True_counts[OF pf]]) simp
  from wi_change_rows[OF ch mem m] obtain r where r: "r \<in> set (workitems (store st))"
    "wi_match w j r" "wi_status r' = ''completed''" "wi_files_total r' = int (length ?us)"
    "wi_files_processed r' =
       wi_files_processed r + int (length (fst (claim_phase e w j ?us ?st2)))"
    by auto
  have p0: "wi_files_processed r = int (length (completed_files (store st) w j))"
    using cnt r(1,2) by simp
  have pkf0: "distinct (map f_key (files (store st)))" using pk by (simp add: primary_keys_def)
  have cc: "length (completed_files (store st) w j) =
      length (filter (\<lambda>f. get_file_status (store st) w j (fm_filename f) = Some ''completed'') ?us)"
    by (rule completed_files_count[OF pkf0 deduplicate_distinct known])
  have "length (filter (\<lambda>f. get_file_status (store st) w j (fm_filename f) = Some ''completed'') ?us) +
        length (filter (\<lambda>f. get_file_status (store st) w j (fm_filename f) \<noteq> Some ''completed'') ?us)
        = length ?us"
    by (rule sum_length_filter_compl)
  then have "wi_files_processed r' = int (length ?us)"
    unfolding r(5) p0 cc tp by simp
  then show "wi_status r' = ''completed'' \<and> wi_files_total r' = int (length ?us) \<and>
             wi_files_processed r' = wi_files_total r'"
    using r(3,4) by simp
qed


theorem completed_means_all_processed_witness:
  "fst (process_workitem
     \<lparr>query_files_for_workitem = (\<lambda>w j. Inr
         [\<lparr>fm_job_id = ''J'', fm_workitem_id = ''W'', fm_workitem_name = ''N'',
           fm_source_uri = ''u'', fm_filename = ''a.json''\<rparr>,
          \<lparr>fm_job_id = ''J'', fm_workitem_id = ''W'', fm_workitem_name = ''N'',
           fm_source_uri = ''u'', fm_filename = ''b.json''\<rparr>]),
      reupload_file = (\<lambda>f. Returned True None), finish_time = (\<lambda>f. 0),
      shutdown_at = None, now = (\<lambda>n. ''t'')\<rparr> ''W'' ''J''
     \<lparr>store = \<lparr>workitems =
         [\<lparr>wi_workitem_id = ''W'', wi_workitem_name = ''N'', wi_job_id = ''J'',
           wi_status = ''failed'', wi_files_total = 2, wi_files_processed = 1,
           wi_error_message = Some ''1 files failed: b.json'', wi_started_at = Some ''t'',
           wi_completed_at = Some ''t''\<rparr>],
       files =
         [\<lparr>f_workitem_id = ''W'', f_job_id = ''J'', f_filename = ''a.json'', f_source_uri = ''u'',
           f_status = ''completed'', f_error_message = None, f_uploaded_at = Some ''t''\<rparr>,
          \<lparr>f_workitem_id = ''W'', f_job_id = ''J'', f_filename = ''b.json'', f_source_uri = ''u'',
           f_status = ''failed'', f_error_message = Some ''Upload failed'',
           f_uploaded_at = Some ''t''\<rparr>]\<rparr>, clock = 0\<rparr>) = True \<and>
   map wi_status (workitems (store (snd (process_workitem
     \<lparr>query_files_for_workitem = (\<lambda>w j. Inr
         [\<lparr>fm_job_id = ''J'', fm_workitem_id = ''W'', fm_workitem_name = ''N'',
           fm_source_uri = ''u'', fm_filename = ''a.json''\<rparr>,
          \<lparr>fm_job_id = ''J'', fm_workitem_id = ''W'', fm_workitem_name = ''N'',
           fm_source_uri = ''u'', fm_filename = ''b.json''\<rparr>]),
      reupload_file = (\<lambda>f. Returned True None), finish_time = (\<lambda>f. 0),
      shutdown_at = None, now = (\<lambda>n. ''t'')\<rparr> ''W'' ''J''
     \<lparr>store = \<lparr>workitems =
         [\<lparr>wi_workitem_id = ''W'', wi_workitem_name = ''N'', wi_job_id = ''J'',
           wi_status = ''failed'', wi_files_total = 2, wi_files_processed = 1,
           wi_error_message = Some ''1 files failed: b.json'', wi_started_at = Some ''t'',
           wi_completed_at = Some ''t''\<rparr>],
       files =
         [\<lparr>f_workitem_id = ''W'', f_job_id = ''J'', f_filename = ''a.json'', f_source_uri = ''u'',
           f_status = ''completed'', f_error_message = None, f_uploaded_at = Some ''t''\<rparr>,
          \<lparr>f_workitem_id = ''W'', f_job_id = ''J'', f_filename = ''b.json'', f_source_uri = ''u'',
           f_status = ''failed'', f_error_message = Some ''Upload failed'',
           f_uploaded_at = Some ''t''\<rparr>]\<rparr>, clock = 0\<rparr>)))) = [''completed''] \<and>
   map wi_files_total (workitems (store (snd (process_workitem
     \<lparr>query_files_for_workitem = (\<lambda>w j. Inr
         [\<lparr>fm_job_id = ''J'', fm_workitem_id = ''W'', fm_workitem_name = ''N'',
           fm_source_uri = ''u'', fm_filename = ''a.json''\<rparr>,
          \<lparr>fm_job_id = ''J'', fm_workitem_id = ''W'', fm_workitem_name = ''N'',
           fm_source_uri = ''u'', fm_filename = ''b.json''\<rparr>]),
      reupload_file = (\<lambda>f. Returned True None), finish_time = (\<lambda>f. 0),
      shutdown_at = None, now = (\<lambda>n. ''t'')\<rparr> ''W'' ''J''
     \<lparr>store = \<lparr>workitems =
         [\<lparr>wi_workitem_id = ''W'', wi_workitem_name = ''N'', wi_job_id = ''J'',
           wi_status = ''failed'', wi_files_total = 2, wi_files_processed = 1,
           wi_error_message = Some ''1 files failed: b.json'', wi_started_at = Some ''t'',
           wi_completed_at = Some ''t''\<rparr>],
       files =
         [\<lparr>f_workitem_id = ''W'', f_job_id = ''J'', f_filename = ''a.json'', f_source_uri = ''u'',
           f_status = ''completed'', f_error_message = None, f_uploaded_at = Some ''t''\<rparr>,
          \<lparr>f_workitem_id = ''W'', f_job_id = ''J'', f_filename = ''b.json'', f_source_uri = ''u'',
           f_status = ''failed'', f_error_message = Some ''Upload failed'',
           f_uploaded_at = Some ''t''\<rparr>]\<rparr>, clock = 0\<rparr>)))) = [2] \<and>
   map wi_files_processed (workitems (store (snd (process_workitem
     \<lparr>query_files_for_workitem = (\<lambda>w j. Inr
         [\<lparr>fm_job_id = ''J'', fm_workitem_id = ''W'', fm_workitem_name = ''N'',
           fm_source_uri = ''u'', fm_filename = ''a.json''\<rparr>,
          \<lparr>fm_job_id = ''J'', fm_workitem_id = ''W'', fm_workitem_name = ''N'',
           fm_source_uri = ''u'', fm_filename = ''b.json''\<rparr>]),
      reupload_file = (\<lambda>f. Returned True None), finish_time = (\<lambda>f. 0),
      shutdown_at = None, now = (\<lambda>n. ''t'')\<rparr> ''W'' ''J''
     \<lparr>store = \<lparr>workitems =
         [\<lparr>wi_workitem_id = ''W'', wi_workitem_name = ''N'', wi_job_id = ''J'',
           wi_status = ''failed'', wi_files_total = 2, wi_files_processed = 1,
           wi_error_message = Some ''1 files failed: b.json'', wi_started_at = Some ''t'',
           wi_completed_at = Some ''t''\<rparr>],
       files =
         [\<lparr>f_workitem_id = ''W'', f_job_id = ''J'', f_filename = ''a.json'', f_source_uri = ''u'',
           f_status = ''completed'', f_error_message = None, f_uploaded_at = Some ''t''\<rparr>,
          \<lparr>f_workitem_id = ''W'', f_job_id = ''J'', f_filename = ''b.json'', f_source_uri = ''u'',
           f_status = ''failed'', f_error_message = Some ''Upload failed'',
           f_uploaded_at = Some ''t''\<rparr>]\<rparr>, clock = 0\<rparr>)))) = [2]"
proof -
  let ?fs = "[\<lparr>fm_job_id = ''J'', fm_workitem_id = ''W'', fm_workitem_name = ''N'',
           fm_source_uri = ''u'', fm_filename = ''a.json''\<rparr>,
          \<lparr>fm_job_id = ''J'', fm_workitem_id = ''W'', fm_workitem_name = ''N'',
           fm_source_uri = ''u'', fm_filename = ''b.json''\<rparr>]"
  let ?e = "\<lparr>query_files_for_workitem = (\<lambda>w j. Inr ?fs),
      reupload_file = (\<lambda>f. Returned True None), finish_time = (\<lambda>f. 0),
      shutdown_at = None, now = (\<lambda>n. ''t'')\<rparr>"
  let ?st = "\<lparr>store = \<lparr>workitems =
         [\<lparr>wi_workitem_id = ''W'', wi_workitem_name = ''N'', wi_job_id = ''J'',
           wi_status = ''failed'', wi_files_total = 2, wi_files_processed = 1,
           wi_error_message = Some ''1 files failed: b.json'', wi_started_at = Some ''t'',
           wi_completed_at = Some ''t''\<rparr>],
       files =
         [\<lparr>f_workitem_id = ''W'', f_job_id = ''J'', f_filename = ''a.json'', f_source_uri = ''u'',
           f_status = ''completed'', f_error_message = None, f_uploaded_at = Some ''t''\<rparr>,
          \<lparr>f_workitem_id = ''W'', f_job_id = ''J'', f_filename = ''b.json'', f_source_uri = ''u'',
           f_status = ''failed'', f_error_message = Some ''Upload failed'',
           f_uploaded_at = Some ''t''\<rparr>]\<rparr>, clock = 0\<rparr>"
  let ?st' = "snd (process_workitem ?e ''W'' ''J'' ?st)"
  have tr: "fst (process_workitem ?e ''W'' ''J'' ?st) = True" by code_simp
  have ok: "process_workitem ?e ''W'' ''J'' ?st = (True, ?st')"
    by (rule prod_eqI) (simp_all only: fst_conv snd_conv tr)
  have nc: "get_workitem_status (store ?st) ''W'' ''J'' \<noteq> Some ''completed''"
    by (simp add: get_workitem_status_def wi_match_def)
  have q: "query_files_for_workitem ?e ''W'' ''J'' = Inr ?fs" by simp
  have ne: "?fs \<noteq> []" by simp
  have pk: "primary_keys (store ?st)" by (simp add: primary_keys_def wi_key_def f_key_def)
  have dd: "deduplicate ?fs = ?fs" by (simp add: deduplicate_def basename_def Let_def)
  have free: "\<forall>f\<in>set (deduplicate ?fs).
        get_file_status (store ?st) ''W'' ''J'' (fm_filename f) = None \<or>
        get_file_status (store ?st) ''W'' ''J'' (fm_filename f) = Some ''pending'' \<or>
        get_file_status (store ?st) ''W'' ''J'' (fm_filename f) = Some ''failed'' \<or>
        get_file_status (store ?st) ''W'' ''J'' (fm_filename f) = Some ''completed''"
    unfolding dd by (simp add: get_file_status_def f_match_def)
  have cnt: "\<forall>r\<in>set (workitems (store ?st)). wi_match ''W'' ''J'' r \<longrightarrow>
        wi_files_processed r = int (length (completed_files (store ?st) ''W'' ''J''))"
    by (simp add: completed_files_def)
  have known: "\<forall>x\<in>set (completed_files (store ?st) ''W'' ''J'').
        f_filename x \<in> fm_filename ` set (deduplicate ?fs)"
    unfolding dd by (simp add: completed_files_def)
  note t = completed_means_all_processed[OF ok nc q ne pk free cnt known]
  have keys: "map wi_key (workitems (store ?st')) = [(''W'', ''J'')]" by code_simp
  then obtain r where r: "workitems (store ?st') = [r]" "wi_key r = (''W'', ''J'')"
    by (auto simp: map_eq_Cons_conv)
  have m: "wi_match ''W'' ''J'' r" using r(2) by (simp add: wi_match_key)
  have "wi_status r = ''completed'' \<and> wi_files_total r = int (length (deduplicate ?fs)) \<and>
        wi_files_processed r = wi_files_total r"
    using t[rule_format, of r] r(1) m by simp
  then have "wi_status r = ''completed'' \<and> wi_files_total r = 2 \<and> wi_files_processed r = 2"
    unfolding dd by simp
  then show ?thesis using tr unfolding r(1) by simp
qed

text \<open>
  Claim C2, as stated, fails. First, in two calls: a first call is interrupted by the
  shutdown signal while its two files are drained, with one file recorded as completed and
  the other left in_progress; the second call finds nothing to claim, takes the early
  path, and completes the work item with \<^verbatim>\<open>files_processed\<close> = 1 and \<^verbatim>\<open>files_total\<close> = 2.
  Second, for the tracker methods alone: \<^verbatim>\<open>update_file_status\<close> on a fresh work item
  gives \<^verbatim>\<open>files_processed\<close> = 1 while \<^verbatim>\<open>files_total\<close> is still 0.
\<close>

theorem completed_early_path_counterexample:
  "fst (process_workitem
     \<lparr>query_files_for_workitem = (\<lambda>w j. Inr
         [\<lparr>fm_job_id = ''J'', fm_workitem_id = ''W'', fm_workitem_name = ''N'',
           fm_source_uri = ''u'', fm_filename = ''a.json''\<rparr>,
          \<lparr>fm_job_id = ''J'', fm_workitem_id = ''W'', fm_workitem_name = ''N'',
           fm_source_uri = ''u'', fm_filename = ''b.json''\<rparr>]),
      reupload_file = (\<lambda>f. Returned True None), finish_time = (\<lambda>f. 0),
      shutdown_at = None, now = (\<lambda>n. ''t'')\<rparr> ''W'' ''J''
     (snd (process_workitem
       \<lparr>query_files_for_workitem = (\<lambda>w j. Inr
           [\<lparr>fm_job_id = ''J'', fm_workitem_id = ''W'', fm_workitem_name = ''N'',
             fm_source_uri = ''u'', fm_filename = ''a.json''\<rparr>,
            \<lparr>fm_job_id = ''J'', fm_workitem_id = ''W'', fm_workitem_name = ''N'',
             fm_source_uri = ''u'', fm_filename = ''b.json''\<rparr>]),
        reupload_file = (\<lambda>f. Returned True None), finish_time = (\<lambda>f. 0),
        shutdown_at = Some 3, now = (\<lambda>n. ''t'')\<rparr> ''W'' ''J''
       \<lparr>store = add_workitem init_db ''W'' ''N'' ''J'', clock = 0\<rparr>))) = True \<and>
   map wi_status (workitems (store (snd (process_workitem
     \<lparr>query_files_for_workitem = (\<lambda>w j. Inr
         [\<lparr>fm_job_id = ''J'', fm_workitem_id = ''W'', fm_workitem_name = ''N'',
           fm_source_uri = ''u'', fm_filename = ''a.json''\<rparr>,
          \<lparr>fm_job_id = ''J'', fm_workitem_id = ''W'', fm_workitem_name = ''N'',
           fm_source_uri = ''u'', fm_filename = ''b.json''\<rparr>]),
      reupload_file = (\<lambda>f. Returned True None), finish_time = (\<lambda>f. 0),
      shutdown_at = None, now = (\<lambda>n. ''t'')\<rparr> ''W'' ''J''
     (snd (process_workitem
       \<lparr>query_files_for_workitem = (\<lambda>w j. Inr
           [\<lparr>fm_job_id = ''J'', fm_workitem_id = ''W'', fm_workitem_name = ''N'',
             fm_source_uri = ''u'', fm_filename = ''a.json''\<rparr>,
            \<lparr>fm_job_id = ''J'', fm_workitem_id = ''W'', fm_workitem_name = ''N'',
             fm_source_uri = ''u'', fm_filename = ''b.json''\<rparr>]),
        reupload_file = (\<lambda>f. Returned True None), finish_time = (\<lambda>f. 0),
        shutdown_at = Some 3, now = (\<lambda>n. ''t'')\<rparr> ''W'' ''J''
       \<lparr>store = add_workitem init_db ''W'' ''N'' ''J'', clock = 0\<rparr>)))))) = [''completed''] \<and>
   map wi_files_total (workitems (store (snd (process_workitem
     \<lparr>query_files_for_workitem = (\<lambda>w j. Inr
         [\<lparr>fm_job_id = ''J'', fm_workitem_id = ''W'', fm_workitem_name = ''N'',
           fm_source_uri = ''u'', fm_filename = ''a.json''\<rparr>,
          \<lparr>fm_job_id = ''J'', fm_workitem_id = ''W'', fm_workitem_name = ''N'',
           fm_source_uri = ''u'', fm_filename = ''b.json''\<rparr>]),
      reupload_file = (\<lambda>f. Returned True None), finish_time = (\<lambda>f. 0),
      shutdown_at = None, now = (\<lambda>n. ''t'')\<rparr> ''W'' ''J''
     (snd (process_workitem
       \<lparr>query_files_for_workitem = (\<lambda>w j. Inr
           [\<lparr>fm_job_id = ''J'', fm_workitem_id = ''W'', fm_workitem_name = ''N'',
             fm_source_uri = ''u'', fm_filename = ''a.json''\<rparr>,
            \<lparr>fm_job_id = ''J'', fm_workitem_id = ''W'', fm_workitem_name = ''N'',
             fm_source_uri = ''u'', fm_filename = ''b.json''\<rparr>]),
        reupload_file = (\<lambda>f. Returned True None), finish_time = (\<lambda>f. 0),
        shutdown_at = Some 3, now = (\<lambda>n. ''t'')\<rparr> ''W'' ''J''
       \<lparr>store = add_workitem init_db ''W'' ''N'' ''J'', clock = 0\<rparr>)))))) = [2] \<and>
   map wi_files_processed (workitems (store (snd (process_workitem
     \<lparr>query_files_for_workitem = (\<lambda>w j. Inr
         [\<lparr>fm_job_id = ''J'', fm_workitem_id = ''W'', fm_workitem_name = ''N'',
           fm_source_uri = ''u'', fm_filename = ''a.json''\<rparr>,
          \<lparr>fm_job_id = ''J'', fm_workitem_id = ''W'', fm_workitem_name = ''N'',
           fm_source_uri = ''u'', fm_filename = ''b.json''\<rparr>]),
      reupload_file = (\<lambda>f. Returned True None), finish_time = (\<lambda>f. 0),
      shutdown_at = None, now = (\<lambda>n. ''t'')\<rparr> ''W'' ''J''
     (snd (process_workitem
       \<lparr>query_files_for_workitem = (\<lambda>w j. Inr
           [\<lparr>fm_job_id = ''J'', fm_workitem_id = ''W'', fm_workitem_name = ''N'',
             fm_source_uri = ''u'', fm_filename = ''a.json''\<rparr>,
            \<lparr>fm_job_id = ''J'', fm_workitem_id = ''W'', fm_workitem_name = ''N'',
             fm_source_uri = ''u'', fm_filename = ''b.json''\<rparr>]),
        reupload_file = (\<lambda>f. Returned True None), finish_time = (\<lambda>f. 0),
        shutdown_at = Some 3, now = (\<lambda>n. ''t'')\<rparr> ''W'' ''J''
       \<lparr>store = add_workitem init_db ''W'' ''N'' ''J'', clock = 0\<rparr>)))))) = [1] \<and>
   map wi_files_total (workitems
     (update_file_status (add_file (add_workitem init_db ''W'' ''N'' ''J'') ''W'' ''J'' ''f'' ''u'')
        ''t'' ''W'' ''J'' ''f'' ''completed'' None)) = [0] \<and>
   map wi_files_processed (workitems
     (update_file_status (add_file (add_workitem init_db ''W'' ''N'' ''J'') ''W'' ''J'' ''f'' ''u'')
        ''t'' ''W'' ''J'' ''f'' ''completed'' None)) = [1]"
  by code_simp


section \<open>De-duplication and destination identities\<close>

subsection \<open>De-duplication when all entries carry one work item name\<close>







section \<open>Partitions across interpreter processes\<close>

text \<open>
  Inside one interpreter process, that is for one seed, every work item id belongs to
  exactly one partition index in \<open>0..<n\<close>, and the partitions of an id set are pairwise
  disjoint and cover it.
\<close>

lemma belongs_to_partition_one_process:
  assumes n: "2 \<le> n"
  shows "\<exists>!p. 0 \<le> p \<and> p < n \<and> belongs_to_partition py_hash seed w p n = Some True"
    and "(\<Union>p\<in>{0..<n}. {x \<in> S. belongs_to_partition py_hash seed x p n = Some True}) = S"
    and "p \<noteq> q \<Longrightarrow>
      {x \<in> S. belongs_to_partition py_hash seed x p n = Some True} \<inter>
      {x \<in> S. belongs_to_partition py_hash seed x q n = Some True} = {}"
proof -
  have pos: "0 < n" using n by simp
  show "\<exists>!p. 0 \<le> p \<and> p < n \<and> belongs_to_partition py_hash seed w p n = Some True"
  proof (rule ex1I[of _ "py_hash seed w mod n"])
    show "0 \<le> py_hash seed w mod n \<and> py_hash seed w mod n < n \<and>
          belongs_to_partition py_hash seed w (py_hash seed w mod n) n = Some True"
      using pos by (simp add: belongs_to_partition_def)
  next
    fix p assume "0 \<le> p \<and> p < n \<and> belongs_to_partition py_hash seed w p n = Some True"
    then show "p = py_hash seed w mod n" using pos by (simp add: belongs_to_partition_def)
  qed
  show "(\<Union>p\<in>{0..<n}. {x \<in> S. belongs_to_partition py_hash seed x p n = Some True}) = S"
  proof (rule set_eqI)
    fix x
    have "x \<in> S \<Longrightarrow> py_hash seed x mod n \<in> {0..<n} \<and>
            belongs_to_partition py_hash seed x (py_hash seed x mod n) n = Some True"
      using pos by (simp add: belongs_to_partition_def)
    then show "x \<in> (\<Union>p\<in>{0..<n}. {x \<in> S. belongs_to_partition py_hash seed x p n = Some True})
               \<longleftrightarrow> x \<in> S"
      by auto
  qed
  show "p \<noteq> q \<Longrightarrow>
      {x \<in> S. belongs_to_partition py_hash seed x p n = Some True} \<inter>
      {x \<in> S. belongs_to_partition py_hash seed x q n = Some True} = {}"
    using pos by (auto simp: belongs_to_partition_def)
qed

text \<open>
  Claim C5: the code at the failing input. The instances are separate interpreter
  processes. With CPython 3.11, \<^verbatim>\<open>hash('abcd')\<close> is \<open>-558410499034126547\<close> in a process
  with hash seed 1 and \<open>-2139571906038943989\<close> in a process with hash seed 4. With three
  partitions, the same call \<^verbatim>\<open>belongs_to_partition('abcd', 0, 3)\<close> is False in the first
  process and True in the second. When the instance for index 0 has seed 1 and the
  instances for the indices 1 and 2 have seed 4, the id is in no partition; when the
  instance for index 0 has seed 4 and the instance for index 1 has seed 1, it is in two.
\<close>

theorem belongs_to_partition_across_processes:
  "belongs_to_partition
     (\<lambda>seed s. if s = ''abcd'' \<and> seed = 1 then - 558410499034126547
                else if s = ''abcd'' \<and> seed = 4 then - 2139571906038943989 else 0)
     1 ''abcd'' 0 3 = Some False \<and>
   belongs_to_partition
     (\<lambda>seed s. if s = ''abcd'' \<and> seed = 1 then - 558410499034126547
                else if s = ''abcd'' \<and> seed = 4 then - 2139571906038943989 else 0)
     4 ''abcd'' 1 3 = Some False \<and>
   belongs_to_partition
     (\<lambda>seed s. if s = ''abcd'' \<and> seed = 1 then - 558410499034126547
                else if s = ''abcd'' \<and> seed = 4 then - 2139571906038943989 else 0)
     4 ''abcd'' 2 3 = Some False \<and>
   belongs_to_partition
     (\<lambda>seed s. if s = ''abcd'' \<and> seed = 1 then - 558410499034126547
                else if s = ''abcd'' \<and> seed = 4 then - 2139571906038943989 else 0)
     4 ''abcd'' 0 3 = Some True \<and>
   belongs_to_partition
     (\<lambda>seed s. if s = ''abcd'' \<and> seed = 1 then - 558410499034126547
                else if s = ''abcd'' \<and> seed = 4 then - 2139571906038943989 else 0)
     1 ''abcd'' 1 3 = Some True"
  by (simp add: belongs_to_partition_def)

section \<open>De-duplication by destination identity\<close>





end
